theory Spec2Isabelle
  imports Complex_Main "HOL-Library.AList"
begin

section \<open>Region aggregation and correlation engine\<close>

text \<open>
  A shallow embedding of \<^verbatim>\<open>regions.py\<close>, \<^verbatim>\<open>dataset.py\<close>, \<^verbatim>\<open>regression.py\<close> and the
  two ranking methods of \<^verbatim>\<open>final_report.py\<close>.

  Conventions of the embedding:
  \<^item> Python numbers are modelled as \<^typ>\<open>real\<close>: arithmetic is exact, rounding of
    binary floating point is not represented.
  \<^item> A raised exception is the left summand of \<open>error + 'a\<close>; division is written with
    its zero test, since Python raises \<^verbatim>\<open>ZeroDivisionError\<close> where HOL returns 0.
  \<^item> A \<^verbatim>\<open>dict\<close> is an association list in insertion order; a missing key raises
    \<^verbatim>\<open>KeyError\<close>. The value \<^verbatim>\<open>None\<close> stored under a key is \<^term>\<open>None\<close> of an
    option type, so \<open>no data\<close> and \<open>no key\<close> stay apart.
\<close>

subsection \<open>Exceptions\<close>

text \<open>
  The first five constructors are the built-in exceptions the code can raise. The source
  defines no exception class of its own; \<open>InsufficientData\<close> and \<open>DegenerateInput\<close> are the
  two kinds named by the specification's error taxonomy, and no equation below produces
  them.
\<close>

datatype error =
    ZeroDivisionError
  | IndexError
  | KeyError
  | ValueError
  | TypeError
  | InsufficientData
  | DegenerateInput

definition py_div :: "real \<Rightarrow> real \<Rightarrow> error + real" where
  "py_div a b = (if b = 0 then Inl ZeroDivisionError else Inr (a / b))"

definition list_get :: "'a list \<Rightarrow> nat \<Rightarrow> error + 'a" where
  "list_get xs i = (if i < length xs then Inr (xs ! i) else Inl IndexError)"

subsection \<open>regression.py\<close>

text \<open>\<^verbatim>\<open>mean\<close>: \<^verbatim>\<open>sum(values) / len(values)\<close>.\<close>

definition mean :: "real list \<Rightarrow> error + real" where
  "mean vs = py_div (sum_list vs) (real (length vs))"

text \<open>
  Python's \<^verbatim>\<open>float\<close> is an IEEE double; the functions of this file are modelled over the
  reals. The two agree where no operation rounds. \<open>whole_sample\<close> describes samples on which
  \<^verbatim>\<open>sum(values)\<close> does not round: at most \<open>2 ^ 26\<close> whole numbers of magnitude at most
  \<open>2 ^ 26\<close>, so that every partial sum is a whole number below \<open>2 ^ 53\<close>. The mean of such a
  sample whose values are all equal is that value in doubles as over the reals, and every
  difference, product and square formed from such numbers by the two loops below stays
  finite.
\<close>

definition whole_number :: "real \<Rightarrow> bool" where
  "whole_number v \<longleftrightarrow> real_of_int \<lfloor>v\<rfloor> = v \<and> \<bar>v\<bar> \<le> 2 ^ 26"

definition whole_sample :: "real list \<Rightarrow> bool" where
  "whole_sample vs \<longleftrightarrow> length vs \<le> 2 ^ 26 \<and> list_all whole_number vs"

text \<open>
  The body of the \<^verbatim>\<open>for i in range(n)\<close> loop of \<^verbatim>\<open>linear_regression\<close>, run over the
  list of indices, with the pair (numerator, denominator) as loop state.
\<close>

fun lr_loop ::
  "real list \<Rightarrow> real list \<Rightarrow> real \<Rightarrow> real \<Rightarrow> nat list \<Rightarrow> real \<times> real \<Rightarrow> error + real \<times> real"
where
  "lr_loop x_values y_values x_mean y_mean [] acc = Inr acc"
| "lr_loop x_values y_values x_mean y_mean (i # rest) (numerator, denominator) =
     (case list_get x_values i of
        Inl e \<Rightarrow> Inl e
      | Inr x \<Rightarrow>
          (case list_get y_values i of
             Inl e \<Rightarrow> Inl e
           | Inr y \<Rightarrow>
               lr_loop x_values y_values x_mean y_mean rest
                 (numerator + (x - x_mean) * (y - y_mean), denominator + (x - x_mean)\<^sup>2)))"

definition linear_regression :: "real list \<Rightarrow> real list \<Rightarrow> error + real \<times> real" where
  "linear_regression x_values y_values =
     (let n = length x_values in
      case mean x_values of
        Inl e \<Rightarrow> Inl e
      | Inr x_mean \<Rightarrow>
          (case mean y_values of
             Inl e \<Rightarrow> Inl e
           | Inr y_mean \<Rightarrow>
               (case lr_loop x_values y_values x_mean y_mean [0..<n] (0, 0) of
                  Inl e \<Rightarrow> Inl e
                | Inr (numerator, denominator) \<Rightarrow>
                    (case py_div numerator denominator of
                       Inl e \<Rightarrow> Inl e
                     | Inr slope \<Rightarrow> Inr (slope, y_mean - slope * x_mean)))))"

text \<open>
  The loop of \<^verbatim>\<open>strength_of_correlation\<close> over \<^verbatim>\<open>range(len(y_values))\<close>, with
  (s_tot, s_res) as loop state. \<^verbatim>\<open>y_values[i]\<close> is read before \<^verbatim>\<open>x_values[i]\<close>.
\<close>

fun soc_loop ::
  "real \<Rightarrow> real \<Rightarrow> real list \<Rightarrow> real list \<Rightarrow> real \<Rightarrow> nat list \<Rightarrow> real \<times> real \<Rightarrow> error + real \<times> real"
where
  "soc_loop slope intercept x_values y_values y_mean [] acc = Inr acc"
| "soc_loop slope intercept x_values y_values y_mean (i # rest) (s_tot, s_res) =
     (case list_get y_values i of
        Inl e \<Rightarrow> Inl e
      | Inr y \<Rightarrow>
          (case list_get x_values i of
             Inl e \<Rightarrow> Inl e
           | Inr x \<Rightarrow>
               soc_loop slope intercept x_values y_values y_mean rest
                 (s_tot + (y - y_mean)\<^sup>2, s_res + (y - (intercept + slope * x))\<^sup>2)))"

definition strength_of_correlation ::
  "real \<Rightarrow> real \<Rightarrow> real list \<Rightarrow> real list \<Rightarrow> error + real"
where
  "strength_of_correlation slope intercept x_values y_values =
     (case mean y_values of
        Inl e \<Rightarrow> Inl e
      | Inr y_mean \<Rightarrow>
          (case soc_loop slope intercept x_values y_values y_mean
                  [0..<length y_values] (0, 0) of
             Inl e \<Rightarrow> Inl e
           | Inr (s_tot, s_res) \<Rightarrow>
               (case py_div s_res s_tot of
                  Inl e \<Rightarrow> Inl e
                | Inr q \<Rightarrow> Inr (1 - q))))"

subsection \<open>Dictionaries\<close>

text \<open>
  \<^verbatim>\<open>k in d\<close>, \<^verbatim>\<open>d[k]\<close> (raises \<^verbatim>\<open>KeyError\<close> on a missing key) and \<^verbatim>\<open>d[k] = v\<close>
  (overwrites in place, or appends a new key at the end).
\<close>

definition dict_has :: "('k \<times> 'v) list \<Rightarrow> 'k \<Rightarrow> bool" where
  "dict_has d k = (map_of d k \<noteq> None)"

definition dict_get :: "('k \<times> 'v) list \<Rightarrow> 'k \<Rightarrow> error + 'v" where
  "dict_get d k = (case map_of d k of None \<Rightarrow> Inl KeyError | Some v \<Rightarrow> Inr v)"

definition dict_set :: "('k \<times> 'v) list \<Rightarrow> 'k \<Rightarrow> 'v \<Rightarrow> ('k \<times> 'v) list" where
  "dict_set d k v = AList.update k v d"

subsection \<open>regions.py\<close>

text \<open>A metric series: year to value, where the value \<^verbatim>\<open>None\<close> means no data.\<close>

type_synonym series = "(int \<times> real option) list"

definition defualt_dict :: series where
  "defualt_dict = map (\<lambda>year. (year, None)) [1951..2016]"

record region =
  name :: string
  continent :: "string option"
  population :: series
  has_carbon_tax :: bool
  co2_emissions :: series
  co2_emissions_per_capita :: series
  gdp :: series
  gdp_per_capita :: series
  renewable_energy :: series
  renewable_energy_per_capita :: series
  projected_damage :: "real option"
  percentage_concerned :: "real option"
  region_score :: "real option"

text \<open>The constructor call \<^verbatim>\<open>Region(name=name, continent=continent)\<close>.\<close>

definition Region :: "string \<Rightarrow> string \<Rightarrow> region" where
  "Region n c =
     \<lparr>name = n, continent = Some c, population = defualt_dict, has_carbon_tax = False,
      co2_emissions = defualt_dict, co2_emissions_per_capita = defualt_dict,
      gdp = defualt_dict, gdp_per_capita = defualt_dict,
      renewable_energy = defualt_dict, renewable_energy_per_capita = defualt_dict,
      projected_damage = None, percentage_concerned = None, region_score = None\<rparr>"

subsection \<open>dataset.py\<close>

text \<open>
  \<^verbatim>\<open>DataSet.regions\<close>: canonical name to region, in insertion order. Every pass below takes
  the registry and returns the updated one. A pass of the shape
  \<^verbatim>\<open>for region in self.regions: ... self.regions[region].field[...] = ...\<close> touches, at each
  key, only the region stored under that key, so it is a traversal of the entries.
\<close>

type_synonym registry = "(string \<times> region) list"

fun for_each_region :: "(region \<Rightarrow> error + region) \<Rightarrow> registry \<Rightarrow> error + registry" where
  "for_each_region f [] = Inr []"
| "for_each_region f ((k, r) # rest) =
     (case f r of
        Inl e \<Rightarrow> Inl e
      | Inr r' \<Rightarrow>
          (case for_each_region f rest of
             Inl e \<Rightarrow> Inl e
           | Inr rest' \<Rightarrow> Inr ((k, r') # rest')))"

text \<open>
  \<^verbatim>\<open>initialise_regions\<close>. The argument is the list of (name, continent) pairs that
  \<^verbatim>\<open>parse_csv_line\<close> yields for the lines \<^verbatim>\<open>data[1:]\<close> of the master list. The two renames
  read the old key (\<^verbatim>\<open>KeyError\<close> if it is missing), delete it and store the same region
  under the new key.
\<close>

definition rename_region :: "string \<Rightarrow> string \<Rightarrow> registry \<Rightarrow> error + registry" where
  "rename_region old new regs =
     (case dict_get regs old of
        Inl e \<Rightarrow> Inl e
      | Inr r \<Rightarrow> Inr (dict_set (AList.delete old regs) new r))"

definition initialise_regions :: "(string \<times> string) list \<Rightarrow> error + registry" where
  "initialise_regions rows =
     (let regs = fold (\<lambda>(n, c) regs. dict_set regs n (Region n c)) rows [] in
      case rename_region ''United Kingdom of Great Britain & Northern Ireland''
             ''United Kingdom'' regs of
        Inl e \<Rightarrow> Inl e
      | Inr regs1 \<Rightarrow> rename_region ''United States of America'' ''United States'' regs1)"

text \<open>
  One entry of a region's \<^verbatim>\<open>'data'\<close> list in \<^verbatim>\<open>CO2_emissions.json\<close>: the year, and the
  fields \<^verbatim>\<open>'co2'\<close>, \<^verbatim>\<open>'gdp'\<close>, \<^verbatim>\<open>'population'\<close>, each \<^term>\<open>None\<close> when the key is not in
  the entry. The data set maps a region name to its entries.
\<close>

record line =
  l_year :: int
  l_co2 :: "real option"
  l_gdp :: "real option"
  l_population :: "real option"

type_synonym data_set = "string \<Rightarrow> line list option"

definition co2_line :: "line \<Rightarrow> region \<Rightarrow> region" where
  "co2_line l r =
     (if 1951 \<le> l_year l \<and> l_year l \<le> 2016 \<and> l_co2 l \<noteq> None
      then r\<lparr>co2_emissions := dict_set (co2_emissions r) (l_year l) (l_co2 l)\<rparr>
      else r)"

definition initialise_co2_emissions :: "data_set \<Rightarrow> registry \<Rightarrow> registry" where
  "initialise_co2_emissions ds regs =
     map (\<lambda>(rn, r). case ds rn of None \<Rightarrow> (rn, r) | Some data \<Rightarrow> (rn, fold co2_line data r))
       regs"

definition gdp_line :: "line \<Rightarrow> region \<Rightarrow> region" where
  "gdp_line l r =
     (if 1951 \<le> l_year l \<and> l_year l \<le> 2016 \<and> l_gdp l \<noteq> None
      then r\<lparr>gdp := dict_set (gdp r) (l_year l) (l_gdp l)\<rparr>
      else r)"

definition initialise_gdp :: "data_set \<Rightarrow> registry \<Rightarrow> registry" where
  "initialise_gdp ds regs =
     map (\<lambda>(rn, r). case ds rn of None \<Rightarrow> (rn, r) | Some data \<Rightarrow> (rn, fold gdp_line data r))
       regs"

definition population_line :: "line \<Rightarrow> region \<Rightarrow> region" where
  "population_line l r =
     (if 1951 \<le> l_year l \<and> l_year l \<le> 2016 \<and> l_population l \<noteq> None
      then r\<lparr>population := dict_set (population r) (l_year l) (l_population l)\<rparr>
      else r)"

definition initialise_population :: "data_set \<Rightarrow> registry \<Rightarrow> registry" where
  "initialise_population ds regs =
     map (\<lambda>(rn, r).
            case ds rn of None \<Rightarrow> (rn, r) | Some data \<Rightarrow> (rn, fold population_line data r))
       regs"

text \<open>
  The three per-capita passes share one body up to the names of the fields. \<^verbatim>\<open>min(d)\<close> is
  the least key of a dictionary (\<^verbatim>\<open>ValueError\<close> on an empty one). In the condition
  \<^verbatim>\<open>base[year] is not None and population[year] is not None\<close> the second lookup happens
  only when the first test succeeds.
\<close>

definition min_key :: "(int \<times> 'v) list \<Rightarrow> error + int" where
  "min_key d = (case d of [] \<Rightarrow> Inl ValueError | (k, v) # rest \<Rightarrow> Inr (fold min (map fst rest) k))"

fun per_capita_loop :: "series \<Rightarrow> series \<Rightarrow> int list \<Rightarrow> series \<Rightarrow> error + series" where
  "per_capita_loop base pop [] out = Inr out"
| "per_capita_loop base pop (year # rest) out =
     (case dict_get base year of
        Inl e \<Rightarrow> Inl e
      | Inr None \<Rightarrow> per_capita_loop base pop rest out
      | Inr (Some b) \<Rightarrow>
          (case dict_get pop year of
             Inl e \<Rightarrow> Inl e
           | Inr None \<Rightarrow> per_capita_loop base pop rest out
           | Inr (Some p) \<Rightarrow>
               (case py_div b p of
                  Inl e \<Rightarrow> Inl e
                | Inr q \<Rightarrow> per_capita_loop base pop rest (dict_set out year (Some q)))))"

definition per_capita :: "series \<Rightarrow> series \<Rightarrow> series \<Rightarrow> error + series" where
  "per_capita pop base out =
     (if pop = [] \<or> base = [] then Inr out
      else case min_key pop of
             Inl e \<Rightarrow> Inl e
           | Inr p0 \<Rightarrow>
               (case min_key base of
                  Inl e \<Rightarrow> Inl e
                | Inr b0 \<Rightarrow> per_capita_loop base pop [max p0 b0..2016] out))"

definition gdp_per_capita_of :: "region \<Rightarrow> error + region" where
  "gdp_per_capita_of r =
     (case per_capita (population r) (gdp r) (gdp_per_capita r) of
        Inl e \<Rightarrow> Inl e
      | Inr s \<Rightarrow> Inr (r\<lparr>gdp_per_capita := s\<rparr>))"

definition initialise_gdp_per_capita :: "registry \<Rightarrow> error + registry" where
  "initialise_gdp_per_capita regs = for_each_region gdp_per_capita_of regs"

definition co2_emissions_per_capita_of :: "region \<Rightarrow> error + region" where
  "co2_emissions_per_capita_of r =
     (case per_capita (population r) (co2_emissions r) (co2_emissions_per_capita r) of
        Inl e \<Rightarrow> Inl e
      | Inr s \<Rightarrow> Inr (r\<lparr>co2_emissions_per_capita := s\<rparr>))"

definition initialise_co2_emissions_per_capita :: "registry \<Rightarrow> error + registry" where
  "initialise_co2_emissions_per_capita regs = for_each_region co2_emissions_per_capita_of regs"

definition renewables_per_capita_of :: "region \<Rightarrow> error + region" where
  "renewables_per_capita_of r =
     (case per_capita (population r) (renewable_energy r) (renewable_energy_per_capita r) of
        Inl e \<Rightarrow> Inl e
      | Inr s \<Rightarrow> Inr (r\<lparr>renewable_energy_per_capita := s\<rparr>))"

definition initialise_renewables_per_capita :: "registry \<Rightarrow> error + registry" where
  "initialise_renewables_per_capita regs = for_each_region renewables_per_capita_of regs"

text \<open>
  \<^verbatim>\<open>energy_production\<close>. The argument \<open>rows\<close> holds the lines \<^verbatim>\<open>data[9:]\<close> of the file,
  each already cut at the commas by \<^verbatim>\<open>line.split(",")\<close>. Python's built-in \<^verbatim>\<open>float\<close>
  is the parameter \<open>float\<close>: \<^term>\<open>None\<close> stands for the \<^verbatim>\<open>ValueError\<close> of a text
  that is not a number. \<^verbatim>\<open>line[i].replace(" ", "")\<close> removes the blanks of a cell.
\<close>

definition energy_alias :: "string \<Rightarrow> string" where
  "energy_alias region =
     (if region = ''USA'' then ''United States''
      else if region = ''UK'' then ''United Kingdom''
      else region)"

fun energy_cells ::
  "(string \<Rightarrow> real option) \<Rightarrow> string list \<Rightarrow> nat list \<Rightarrow> series \<Rightarrow> error + series"
where
  "energy_cells float row [] s = Inr s"
| "energy_cells float row (i # rest) s =
     (case list_get row i of
        Inl e \<Rightarrow> Inl e
      | Inr cell \<Rightarrow>
          (let amount = filter (\<lambda>c. c \<noteq> CHR '' '') cell in
           if amount \<noteq> []
           then (case float amount of
                   None \<Rightarrow> Inl ValueError
                 | Some v \<Rightarrow> energy_cells float row rest (dict_set s (1997 + int i) (Some v)))
           else energy_cells float row rest s))"

definition energy_row ::
  "(string \<Rightarrow> real option) \<Rightarrow> string list \<Rightarrow> registry \<Rightarrow> error + registry"
where
  "energy_row float row regs =
     (case list_get row 1 of
        Inl e \<Rightarrow> Inl e
      | Inr region0 \<Rightarrow>
          (let region = energy_alias region0 in
           case map_of regs region of
             None \<Rightarrow> Inr regs
           | Some r \<Rightarrow>
               (case energy_cells float row [3..<20] (renewable_energy r) of
                  Inl e \<Rightarrow> Inl e
                | Inr s \<Rightarrow> Inr (dict_set regs region (r\<lparr>renewable_energy := s\<rparr>)))))"

fun energy_production ::
  "(string \<Rightarrow> real option) \<Rightarrow> string list list \<Rightarrow> registry \<Rightarrow> error + registry"
where
  "energy_production float [] regs = Inr regs"
| "energy_production float (row # rows) regs =
     (case energy_row float row regs of
        Inl e \<Rightarrow> Inl e
      | Inr regs' \<Rightarrow> energy_production float rows regs')"

text \<open>\<^verbatim>\<open>initialise_carbon_tax\<close> over the module constant \<^verbatim>\<open>COUNTRIES_WITH_CARBON_TAX\<close>.\<close>

definition COUNTRIES_WITH_CARBON_TAX :: "string list" where
  "COUNTRIES_WITH_CARBON_TAX =
     [''Argentina'', ''Canada'', ''Chile'', ''Colombia'',
      ''Denmark'', ''Estonia'', ''Finland'',
      ''France'', ''Iceland'', ''Ireland'',
      ''Japan'', ''Latvia'', ''Liechtenstein'',
      ''Mexico'', ''Norway'', ''Poland'', ''Portugal'',
      ''Singapore'', ''Slovenia'', ''South Africa'',
      ''Spain'', ''Sweden'', ''Switzerland'', ''United Kingdom'', ''Ukraine'']"

fun carbon_tax_loop :: "string list \<Rightarrow> registry \<Rightarrow> error + registry" where
  "carbon_tax_loop [] regs = Inr regs"
| "carbon_tax_loop (country # rest) regs =
     (case dict_get regs country of
        Inl e \<Rightarrow> Inl e
      | Inr r \<Rightarrow> carbon_tax_loop rest (dict_set regs country (r\<lparr>has_carbon_tax := True\<rparr>)))"

definition initialise_carbon_tax :: "registry \<Rightarrow> error + registry" where
  "initialise_carbon_tax regs = carbon_tax_loop COUNTRIES_WITH_CARBON_TAX regs"

text \<open>
  \<^verbatim>\<open>initialise_projected_damage\<close>. The argument \<open>rows\<close> holds the lines \<^verbatim>\<open>data[1:]\<close>, each
  already cut at the tabs; \<^verbatim>\<open>line[0]\<close> is the head and \<^verbatim>\<open>line[-1]\<close> the last element.
  The parameter \<open>float\<close> stands for the replacement of the minus sign followed by
  \<^verbatim>\<open>float\<close>. On the right-hand side of the assignment the number is read before the
  target region is looked up.
\<close>

definition damage_row ::
  "(string \<Rightarrow> real option) \<Rightarrow> string list \<Rightarrow> registry \<Rightarrow> error + registry"
where
  "damage_row float row regs =
     (case row of
        [] \<Rightarrow> Inl IndexError
      | ident # _ \<Rightarrow>
          (case map_of regs ident of
             Some r \<Rightarrow>
               (case float (last row) of
                  None \<Rightarrow> Inl ValueError
                | Some v \<Rightarrow> Inr (dict_set regs ident (r\<lparr>projected_damage := Some v\<rparr>)))
           | None \<Rightarrow>
               if ident = ''United States of America''
               then (case float (last row) of
                       None \<Rightarrow> Inl ValueError
                     | Some v \<Rightarrow>
                         (case dict_get regs ''United States'' of
                            Inl e \<Rightarrow> Inl e
                          | Inr r \<Rightarrow>
                              Inr (dict_set regs ''United States''
                                     (r\<lparr>projected_damage := Some v\<rparr>))))
               else Inr regs))"

fun initialise_projected_damage ::
  "(string \<Rightarrow> real option) \<Rightarrow> string list list \<Rightarrow> registry \<Rightarrow> error + registry"
where
  "initialise_projected_damage float [] regs = Inr regs"
| "initialise_projected_damage float (row # rows) regs =
     (case damage_row float row regs of
        Inl e \<Rightarrow> Inl e
      | Inr regs' \<Rightarrow> initialise_projected_damage float rows regs')"

text \<open>\<^verbatim>\<open>initialise_region_score\<close>: the body of the loop for one region, then the loop.\<close>

definition region_score_of :: "region \<Rightarrow> error + region" where
  "region_score_of r =
     (case dict_get (renewable_energy r) 2016 of
        Inl e \<Rightarrow> Inl e
      | Inr renewable \<Rightarrow>
          (case dict_get (co2_emissions r) 2016 of
             Inl e \<Rightarrow> Inl e
           | Inr emission \<Rightarrow>
               (case (renewable, emission) of
                  (Some rv, Some ev) \<Rightarrow>
                    (case py_div rv ev of
                       Inl e \<Rightarrow> Inl e
                     | Inr score \<Rightarrow>
                         Inr (r\<lparr>region_score :=
                                  Some (if has_carbon_tax r then score * 10 else score)\<rparr>))
                | _ \<Rightarrow> Inr r)))"

definition initialise_region_score :: "registry \<Rightarrow> error + registry" where
  "initialise_region_score regs = for_each_region region_score_of regs"

subsection \<open>final_report.py: the two leaderboards\<close>

text \<open>
  \<^verbatim>\<open>top10\<close> is a list of (name or \<^verbatim>\<open>None\<close>, score) pairs, initially ten times
  \<^verbatim>\<open>(None, 0)\<close>. \<open>leader_scan\<close> is the inner \<^verbatim>\<open>for i in range(10)\<close> loop with its
  \<^verbatim>\<open>insert\<close>, truncation and \<^verbatim>\<open>break\<close>; \<open>list_insert\<close> is \<^verbatim>\<open>list.insert\<close>.
\<close>

type_synonym leaders = "(string option \<times> real) list"

definition list_insert :: "nat \<Rightarrow> 'a \<Rightarrow> 'a list \<Rightarrow> 'a list" where
  "list_insert i x xs = take i xs @ x # drop i xs"

fun leader_scan :: "string \<Rightarrow> real \<Rightarrow> nat list \<Rightarrow> leaders \<Rightarrow> error + leaders" where
  "leader_scan region score [] top10 = Inr top10"
| "leader_scan region score (i # rest) top10 =
     (case list_get top10 i of
        Inl e \<Rightarrow> Inl e
      | Inr entry \<Rightarrow>
          if snd entry < score
          then Inr (take 10 (list_insert i (Some region, score) top10))
          else leader_scan region score rest top10)"

fun largest_co2_loop :: "registry \<Rightarrow> leaders \<Rightarrow> error + leaders" where
  "largest_co2_loop [] top10 = Inr top10"
| "largest_co2_loop ((region, r) # rest) top10 =
     (case dict_get (co2_emissions r) 2016 of
        Inl e \<Rightarrow> Inl e
      | Inr None \<Rightarrow> largest_co2_loop rest top10
      | Inr (Some emissions) \<Rightarrow>
          (case leader_scan region emissions [0..<10] top10 of
             Inl e \<Rightarrow> Inl e
           | Inr top10' \<Rightarrow> largest_co2_loop rest top10'))"

definition largest_co2 :: "registry \<Rightarrow> error + string option list" where
  "largest_co2 regs =
     (case largest_co2_loop regs (replicate 10 (None, 0)) of
        Inl e \<Rightarrow> Inl e
      | Inr top10 \<Rightarrow> Inr (map fst top10))"

fun greatest_help_loop :: "registry \<Rightarrow> leaders \<Rightarrow> error + leaders" where
  "greatest_help_loop [] top10 = Inr top10"
| "greatest_help_loop ((region, r) # rest) top10 =
     (case region_score r of
        None \<Rightarrow> greatest_help_loop rest top10
      | Some score \<Rightarrow>
          (case leader_scan region score [0..<10] top10 of
             Inl e \<Rightarrow> Inl e
           | Inr top10' \<Rightarrow> greatest_help_loop rest top10'))"

definition greatest_help :: "registry \<Rightarrow> error + string option list" where
  "greatest_help regs =
     (case greatest_help_loop regs (replicate 10 (None, 0)) of
        Inl e \<Rightarrow> Inl e
      | Inr top10 \<Rightarrow> Inr (map fst top10))"

text \<open>
  What the two leaderboards compute, for stating their properties. \<open>co2_candidates\<close> and
  \<open>help_candidates\<close> are the (name, score) pairs the two outer loops pass to the scan, in
  registry order: a region whose value is \<^verbatim>\<open>None\<close> is skipped by \<^verbatim>\<open>continue\<close>.
  \<open>insert_desc\<close> is the insertion the scan performs on a list of any length: before the
  first entry with a strictly lower score, at the end if there is none. \<open>ranked\<close> sorts by
  descending score and keeps entries of equal score in their order.
\<close>

definition insert_desc :: "string option \<times> real \<Rightarrow> leaders \<Rightarrow> leaders" where
  "insert_desc x xs =
     takeWhile (\<lambda>e. \<not> snd e < snd x) xs @ x # dropWhile (\<lambda>e. \<not> snd e < snd x) xs"

definition ranked :: "leaders \<Rightarrow> leaders" where
  "ranked cs = sort_key (\<lambda>e. - snd e) cs"

definition co2_candidates :: "registry \<Rightarrow> leaders" where
  "co2_candidates regs =
     concat (map (\<lambda>(k, r). case dict_get (co2_emissions r) 2016 of
                              Inr (Some e) \<Rightarrow> [(Some k, e)]
                            | _ \<Rightarrow> []) regs)"

definition help_candidates :: "registry \<Rightarrow> leaders" where
  "help_candidates regs =
     concat (map (\<lambda>(k, r). case region_score r of
                              Some s \<Rightarrow> [(Some k, s)]
                            | None \<Rightarrow> []) regs)"

subsection \<open>Well-formedness of series and registries\<close>

text \<open>
  \<open>has_window_keys\<close>: the keys of a series are exactly the years 1951 to 2016, as
  \<^verbatim>\<open>defualt_dict\<close> creates them. \<open>keys_in_window\<close>: every key lies in that range.
  \<open>region_series\<close> lists the seven series of a region.
\<close>

definition has_window_keys :: "series \<Rightarrow> bool" where
  "has_window_keys s = (fst ` set s = {1951..2016})"

definition keys_in_window :: "series \<Rightarrow> bool" where
  "keys_in_window s = (\<forall>y\<in>fst ` set s. 1951 \<le> y \<and> y \<le> 2016)"

definition region_series :: "region \<Rightarrow> series list" where
  "region_series r =
     [population r, co2_emissions r, co2_emissions_per_capita r, gdp r, gdp_per_capita r,
      renewable_energy r, renewable_energy_per_capita r]"

definition series_ok :: "(series \<Rightarrow> bool) \<Rightarrow> region \<Rightarrow> bool" where
  "series_ok P r = (\<forall>s\<in>set (region_series r). P s)"

definition all_series :: "(series \<Rightarrow> bool) \<Rightarrow> registry \<Rightarrow> bool" where
  "all_series P regs = (\<forall>(k, r)\<in>set regs. \<forall>s\<in>set (region_series r). P s)"

text \<open>
  A property of series that is kept by every write under a year of the window; both
  \<open>has_window_keys\<close> and \<open>keys_in_window\<close> are of this kind.
\<close>

definition window_closed :: "(series \<Rightarrow> bool) \<Rightarrow> bool" where
  "window_closed P =
     (\<forall>s y v. P s \<longrightarrow> 1951 \<le> y \<longrightarrow> y \<le> 2016 \<longrightarrow> P (dict_set s y v))"

text \<open>
  A pass preserves a property of series when every registry that has it and on which the
  pass completes is mapped to a registry that has it. \<open>in_window_only\<close> drops the entries
  of a data set whose year lies outside the window.
\<close>

definition preserves :: "(series \<Rightarrow> bool) \<Rightarrow> (registry \<Rightarrow> error + registry) \<Rightarrow> bool" where
  "preserves P pass =
     (\<forall>regs regs'. all_series P regs \<longrightarrow> pass regs = Inr regs' \<longrightarrow> all_series P regs')"

definition in_window_only :: "data_set \<Rightarrow> data_set" where
  "in_window_only ds =
     (\<lambda>rn. map_option (filter (\<lambda>l. 1951 \<le> l_year l \<and> l_year l \<le> 2016)) (ds rn))"

text \<open>
  What the per-capita derivation promises for one year: the quotient where the base value
  and the population are both present, the old entry where one of them is \<^verbatim>\<open>None\<close>.
\<close>

definition derived_entry_ok :: "series \<Rightarrow> series \<Rightarrow> series \<Rightarrow> series \<Rightarrow> int \<Rightarrow> bool" where
  "derived_entry_ok base pop old new y =
     ((\<forall>b p. map_of base y = Some (Some b) \<and> map_of pop y = Some (Some p) \<longrightarrow>
             map_of new y = Some (Some (b / p))) \<and>
      (map_of base y = Some None \<or> map_of pop y = Some None \<longrightarrow>
         map_of new y = map_of old y))"

section \<open>Properties of the regression engine\<close>

lemma mean_Nil: "mean [] = Inl ZeroDivisionError"
  by (simp add: mean_def py_div_def)

lemma mean_nonempty: "vs \<noteq> [] \<Longrightarrow> mean vs = Inr (sum_list vs / real (length vs))"
  by (simp add: mean_def py_div_def)

lemma sum_list_const: "\<forall>v\<in>set vs. v = (c::real) \<Longrightarrow> sum_list vs = real (length vs) * c"
  by (induction vs) (auto simp: algebra_simps)

lemma mean_const: "vs \<noteq> [] \<Longrightarrow> \<forall>v\<in>set vs. v = c \<Longrightarrow> mean vs = Inr c"
  by (simp add: mean_nonempty sum_list_const)

lemma lr_loop_total:
  "\<forall>i\<in>set idx. i < length xs \<and> i < length ys \<Longrightarrow>
   lr_loop xs ys xm ym idx (num, den) =
     Inr (num + (\<Sum>i\<leftarrow>idx. (xs ! i - xm) * (ys ! i - ym)),
          den + (\<Sum>i\<leftarrow>idx. (xs ! i - xm)\<^sup>2))"
  by (induction idx arbitrary: num den) (auto simp: list_get_def algebra_simps)

lemma soc_loop_total:
  "\<forall>i\<in>set idx. i < length xs \<and> i < length ys \<Longrightarrow>
   soc_loop slope intercept xs ys ym idx (tot, res) =
     Inr (tot + (\<Sum>i\<leftarrow>idx. (ys ! i - ym)\<^sup>2),
          res + (\<Sum>i\<leftarrow>idx. (ys ! i - (intercept + slope * xs ! i))\<^sup>2))"
  by (induction idx arbitrary: tot res) (auto simp: list_get_def algebra_simps)

lemma sum_list_zero_sq:
  "\<forall>i\<in>set idx. i < length vs \<Longrightarrow> \<forall>v\<in>set vs. v = (c::real) \<Longrightarrow>
   (\<Sum>i\<leftarrow>idx. (vs ! i - c)\<^sup>2) = 0"
  by (induction idx) auto

text \<open>
  Claim C9. On the sample points (1,2), (2,4), (3,6) \<^verbatim>\<open>linear_regression\<close> returns slope 2
  and intercept 0, and \<^verbatim>\<open>strength_of_correlation\<close> applied to that slope, that intercept
  and those samples returns 1.
\<close>

theorem regression_exact_on_sample:
  "linear_regression [1, 2, 3] [2, 4, 6] = Inr (2, 0) \<and>
   strength_of_correlation 2 0 [1, 2, 3] [2, 4, 6] = Inr 1"
proof
  have m1: "mean [1, 2, 3] = Inr 2" and m2: "mean [2, 4, 6] = Inr 4"
    by (simp_all add: mean_def py_div_def)
  show "linear_regression [1, 2, 3] [2, 4, 6] = Inr (2, 0)"
    by (simp add: linear_regression_def m1 m2 py_div_def list_get_def upt_rec
        power2_eq_square)
  show "strength_of_correlation 2 0 [1, 2, 3] [2, 4, 6] = Inr 1"
    by (simp add: strength_of_correlation_def m2 py_div_def list_get_def upt_rec
        power2_eq_square)
qed

text \<open>
  Claim C2, as the code has it. \<^verbatim>\<open>linear_regression\<close> on zero samples fails in \<^verbatim>\<open>mean\<close>
  with \<^verbatim>\<open>ZeroDivisionError\<close>. On whole-number samples (\<open>whole_sample\<close>) with equally many x
  and y values, \<^verbatim>\<open>linear_regression\<close> with all x equal, and \<^verbatim>\<open>strength_of_correlation\<close>
  with whole-number slope and intercept and all y equal, fail at the final division, again
  with \<^verbatim>\<open>ZeroDivisionError\<close>. In each case the error is returned to the caller, and it is
  the same built-in error kind.
\<close>

theorem regression_failures_are_zero_division:
  "linear_regression [] ysa = Inl ZeroDivisionError \<and>
   (xsb \<noteq> [] \<and> length ysb = length xsb \<and> whole_sample xsb \<and> whole_sample ysb \<and>
    (\<forall>x\<in>set xsb. x = cb) \<longrightarrow>
      linear_regression xsb ysb = Inl ZeroDivisionError) \<and>
   (ysc \<noteq> [] \<and> length xsc = length ysc \<and> whole_number slope \<and> whole_number intercept \<and>
    whole_sample xsc \<and> whole_sample ysc \<and> (\<forall>y\<in>set ysc. y = cc) \<longrightarrow>
      strength_of_correlation slope intercept xsc ysc = Inl ZeroDivisionError)"
proof (intro conjI impI)
  show "linear_regression [] ysa = Inl ZeroDivisionError"
    by (simp add: linear_regression_def mean_Nil)
next
  assume a0: "xsb \<noteq> [] \<and> length ysb = length xsb \<and> whole_sample xsb \<and> whole_sample ysb \<and>
    (\<forall>x\<in>set xsb. x = cb)"
  then have a: "xsb \<noteq> [] \<and> length ysb = length xsb \<and> (\<forall>x\<in>set xsb. x = cb)" by simp
  then have ne: "ysb \<noteq> []" by auto
  have mx: "mean xsb = Inr cb" using a by (simp add: mean_const)
  have my: "mean ysb = Inr (sum_list ysb / real (length ysb))"
    using ne by (rule mean_nonempty)
  have rng: "\<forall>i\<in>set [0..<length xsb]. i < length xsb \<and> i < length ysb"
    using a by simp
  have den: "(\<Sum>i\<leftarrow>[0..<length xsb]. (xsb ! i - cb)\<^sup>2) = 0"
    using a by (intro sum_list_zero_sq) simp_all
  show "linear_regression xsb ysb = Inl ZeroDivisionError"
    by (simp add: linear_regression_def mx my lr_loop_total [OF rng] den py_div_def)
next
  assume a0: "ysc \<noteq> [] \<and> length xsc = length ysc \<and> whole_number slope \<and>
    whole_number intercept \<and> whole_sample xsc \<and> whole_sample ysc \<and> (\<forall>y\<in>set ysc. y = cc)"
  then have a: "ysc \<noteq> [] \<and> length xsc = length ysc \<and> (\<forall>y\<in>set ysc. y = cc)" by simp
  have my: "mean ysc = Inr cc" using a by (simp add: mean_const)
  have rng: "\<forall>i\<in>set [0..<length ysc]. i < length xsc \<and> i < length ysc"
    using a by simp
  have tot: "(\<Sum>i\<leftarrow>[0..<length ysc]. (ysc ! i - cc)\<^sup>2) = 0"
    using a by (intro sum_list_zero_sq) simp_all
  show "strength_of_correlation slope intercept xsc ysc = Inl ZeroDivisionError"
    by (simp add: strength_of_correlation_def my soc_loop_total [OF rng] tot py_div_def)
qed

text \<open>The three cases of C2 at concrete samples.\<close>

theorem regression_failures_are_zero_division_witness:
  "linear_regression [] [] = Inl ZeroDivisionError \<and>
   linear_regression [1, 1] [3, 4] = Inl ZeroDivisionError \<and>
   strength_of_correlation 2 0 [1, 2] [5, 5] = Inl ZeroDivisionError"
  using regression_failures_are_zero_division
    [where ?ysa = "[]" and ?xsb = "[1, 1]" and ?ysb = "[3, 4]" and ?cb = 1
       and ?xsc = "[1, 2]" and ?ysc = "[5, 5]" and ?cc = 5
       and ?slope = 2 and ?intercept = 0]
  by (simp add: whole_sample_def whole_number_def)

text \<open>
  C2 as stated names two error kinds of its own. On the empty sample and on the two
  degenerate samples the error returned is neither \<open>InsufficientData\<close> nor
  \<open>DegenerateInput\<close>.
\<close>

theorem regression_error_kinds_counterexample:
  "linear_regression [] [] \<noteq> Inl InsufficientData \<and>
   linear_regression [1, 1] [3, 4] \<noteq> Inl DegenerateInput \<and>
   strength_of_correlation 2 0 [1, 2] [5, 5] \<noteq> Inl DegenerateInput"
  by (simp add: linear_regression_def strength_of_correlation_def mean_def py_div_def
      list_get_def upt_rec power2_eq_square)

section \<open>Dictionaries and registry traversal\<close>

lemma dict_get_set_same: "dict_get (dict_set d k v) k = Inr v"
  by (simp add: dict_get_def dict_set_def update_conv')

lemma map_of_dict_set: "map_of (dict_set d k v) = (map_of d)(k \<mapsto> v)"
  by (simp add: dict_set_def update_conv')

lemma keys_dict_set: "fst ` set (dict_set d k v) = insert k (fst ` set d)"
  by (simp add: dict_set_def dom_update)


lemma dict_get_Inl: "dict_get d k = Inl e \<longleftrightarrow> map_of d k = None \<and> e = KeyError"
  by (auto simp: dict_get_def split: option.splits)

lemma for_each_region_Inr:
  "for_each_region f regs = Inr regs' \<Longrightarrow>
   map fst regs' = map fst regs \<and>
   (\<forall>k r. map_of regs k = Some r \<longrightarrow> (\<exists>r'. f r = Inr r' \<and> map_of regs' k = Some r'))"
proof (induction regs arbitrary: regs')
  case Nil
  then show ?case by auto
next
  case (Cons a regs)
  obtain k r where a: "a = (k, r)" by (cases a)
  from Cons.prems obtain r' rest' where
    f: "f r = Inr r'" and rest: "for_each_region f regs = Inr rest'"
    and regs': "regs' = (k, r') # rest'"
    by (auto simp: a split: sum.splits)
  from Cons.IH [OF rest] show ?case
    by (auto simp: a regs' f)
qed

lemma for_each_region_Inl:
  "(k, r) \<in> set regs \<Longrightarrow> f r = Inl e \<Longrightarrow>
   \<forall>(k', q)\<in>set regs. \<forall>e'. f q = Inl e' \<longrightarrow> e' = e \<Longrightarrow>
   for_each_region f regs = Inl e"
proof (induction regs)
  case Nil
  then show ?case by simp
next
  case (Cons a regs)
  obtain k0 r0 where a: "a = (k0, r0)" by (cases a)
  show ?case
  proof (cases "f r0")
    case (Inl e')
    with Cons.prems(3) have "e' = e" by (auto simp: a)
    with Inl show ?thesis by (simp add: a)
  next
    case (Inr r0')
    with Cons.prems(1,2) have "(k, r) \<in> set regs" by (auto simp: a)
    from Cons.IH [OF this Cons.prems(2)] Cons.prems(3)
    have "for_each_region f regs = Inl e" by auto
    with Inr show ?thesis by (simp add: a)
  qed
qed

lemma for_each_region_total:
  "\<forall>(k, r)\<in>set regs. \<exists>r'. f r = Inr r' \<Longrightarrow> \<exists>regs'. for_each_region f regs = Inr regs'"
  by (induction regs) (auto split: sum.splits)

section \<open>The composite region score\<close>

lemma region_score_of_Inr:
  "region_score_of r = Inr r' \<Longrightarrow>
   (\<forall>rv ev. map_of (renewable_energy r) 2016 = Some (Some rv) \<and>
            map_of (co2_emissions r) 2016 = Some (Some ev) \<longrightarrow>
            ev \<noteq> 0 \<and>
            r' = r\<lparr>region_score := Some (if has_carbon_tax r then rv / ev * 10 else rv / ev)\<rparr>) \<and>
   (map_of (renewable_energy r) 2016 = Some None \<or>
    map_of (co2_emissions r) 2016 = Some None \<longrightarrow> r' = r)"
  by (auto simp: region_score_of_def dict_get_def py_div_def
      split: option.splits sum.splits if_splits)

lemma region_score_of_zero:
  "map_of (renewable_energy r) 2016 = Some (Some rv) \<Longrightarrow>
   map_of (co2_emissions r) 2016 = Some (Some 0) \<Longrightarrow>
   region_score_of r = Inl ZeroDivisionError"
  by (simp add: region_score_of_def dict_get_def py_div_def)

lemma region_score_of_error:
  "map_of (renewable_energy r) 2016 \<noteq> None \<Longrightarrow> map_of (co2_emissions r) 2016 \<noteq> None \<Longrightarrow>
   region_score_of r = Inl e \<Longrightarrow> e = ZeroDivisionError"
  by (auto simp: region_score_of_def dict_get_def py_div_def
      split: option.splits sum.splits if_splits)

text \<open>
  Claim C1, as the code has it. When \<^verbatim>\<open>initialise_region_score\<close> completes, a region whose
  2016 renewable-energy value \<open>rv\<close> and 2016 emissions value \<open>ev\<close> are both present has a
  nonzero \<open>ev\<close> and the score \<open>rv / ev\<close>, times 10 if it has a carbon tax; a region with
  either value absent keeps its score (\<^verbatim>\<open>None\<close> since construction). When some region
  has a present renewable-energy value and emissions equal to zero (and every region has
  the key 2016 in both series), the pass does not leave that score absent: it fails with
  \<^verbatim>\<open>ZeroDivisionError\<close>.
\<close>

theorem region_score_after_initialisation:
  "(initialise_region_score regs = Inr regs' \<and> map_of regs rn = Some r \<longrightarrow>
      (\<exists>r'. map_of regs' rn = Some r' \<and>
         (\<forall>rv ev. map_of (renewable_energy r) 2016 = Some (Some rv) \<and>
                  map_of (co2_emissions r) 2016 = Some (Some ev) \<longrightarrow>
                  ev \<noteq> 0 \<and>
                  region_score r' = Some (if has_carbon_tax r then rv / ev * 10 else rv / ev)) \<and>
         (map_of (renewable_energy r) 2016 = Some None \<or>
          map_of (co2_emissions r) 2016 = Some None \<longrightarrow>
          region_score r' = region_score r))) \<and>
   ((\<forall>(k, q)\<in>set regsz.
        dict_has (renewable_energy q) 2016 \<and> dict_has (co2_emissions q) 2016) \<and>
    (rnz, rz) \<in> set regsz \<and>
    map_of (renewable_energy rz) 2016 = Some (Some rvz) \<and>
    map_of (co2_emissions rz) 2016 = Some (Some 0) \<longrightarrow>
      initialise_region_score regsz = Inl ZeroDivisionError)"
proof (intro conjI impI)
  assume a: "initialise_region_score regs = Inr regs' \<and> map_of regs rn = Some r"
  then obtain r' where f: "region_score_of r = Inr r'" and m: "map_of regs' rn = Some r'"
    using for_each_region_Inr [of region_score_of regs regs']
    by (auto simp: initialise_region_score_def)
  from region_score_of_Inr [OF f] m
  show "\<exists>r'. map_of regs' rn = Some r' \<and>
         (\<forall>rv ev. map_of (renewable_energy r) 2016 = Some (Some rv) \<and>
                  map_of (co2_emissions r) 2016 = Some (Some ev) \<longrightarrow>
                  ev \<noteq> 0 \<and>
                  region_score r' = Some (if has_carbon_tax r then rv / ev * 10 else rv / ev)) \<and>
         (map_of (renewable_energy r) 2016 = Some None \<or>
          map_of (co2_emissions r) 2016 = Some None \<longrightarrow>
          region_score r' = region_score r)"
    by auto
next
  assume a: "(\<forall>(k, q)\<in>set regsz.
        dict_has (renewable_energy q) 2016 \<and> dict_has (co2_emissions q) 2016) \<and>
    (rnz, rz) \<in> set regsz \<and>
    map_of (renewable_energy rz) 2016 = Some (Some rvz) \<and>
    map_of (co2_emissions rz) 2016 = Some (Some 0)"
  then have z: "region_score_of rz = Inl ZeroDivisionError"
    by (auto intro: region_score_of_zero)
  have "\<forall>(k', q)\<in>set regsz. \<forall>e'. region_score_of q = Inl e' \<longrightarrow> e' = ZeroDivisionError"
  proof (clarify)
    fix k' q e'
    assume q: "(k', q) \<in> set regsz" and e: "region_score_of q = Inl e'"
    from a q have "map_of (renewable_energy q) 2016 \<noteq> None"
      and "map_of (co2_emissions q) 2016 \<noteq> None"
      by (auto simp: dict_has_def)
    then show "e' = ZeroDivisionError"
      using e by (rule region_score_of_error)
  qed
  with a z show "initialise_region_score regsz = Inl ZeroDivisionError"
    unfolding initialise_region_score_def
    by (intro for_each_region_Inl [of rnz rz]) auto
qed


text \<open>
  C1 at concrete registries. The pass applied to a registry holding one region with
  renewable energy 10, emissions 5 (both for 2016) and a carbon tax returns, and the region
  then has the score 20; applied to a region with emissions 0 it fails with the error.
\<close>

theorem region_score_after_initialisation_witness:
  "(\<exists>regs' r'.
      initialise_region_score
        [(''A'', (Region ''A'' ''Asia'')
            \<lparr>has_carbon_tax := True,
             co2_emissions := dict_set defualt_dict 2016 (Some 5),
             renewable_energy := dict_set defualt_dict 2016 (Some 10)\<rparr>)] = Inr regs' \<and>
      map_of regs' ''A'' = Some r' \<and>
      region_score r' = Some 20) \<and>
   initialise_region_score
     [(''B'', (Region ''B'' ''Asia'')
        \<lparr>co2_emissions := dict_set defualt_dict 2016 (Some 0),
         renewable_energy := dict_set defualt_dict 2016 (Some 10)\<rparr>)]
   = Inl ZeroDivisionError"
proof -
  let ?S = "(Region ''A'' ''Asia'')
       \<lparr>has_carbon_tax := True,
        co2_emissions := dict_set defualt_dict 2016 (Some 5),
        renewable_energy := dict_set defualt_dict 2016 (Some 10)\<rparr>"
  let ?Z = "(Region ''B'' ''Asia'')
        \<lparr>co2_emissions := dict_set defualt_dict 2016 (Some 0),
         renewable_energy := dict_set defualt_dict 2016 (Some 10)\<rparr>"
  obtain regsa where run: "initialise_region_score [(''A'', ?S)] = Inr regsa"
    by (simp add: initialise_region_score_def region_score_of_def Region_def
        dict_get_set_same py_div_def)
  have keys: "\<forall>(k, q)\<in>set [(''B'', ?Z)].
        dict_has (renewable_energy q) 2016 \<and> dict_has (co2_emissions q) 2016"
    by (simp add: dict_has_def map_of_dict_set Region_def)
  have vals: "map_of (renewable_energy ?S) 2016 = Some (Some 10)"
    "map_of (co2_emissions ?S) 2016 = Some (Some 5)"
    "map_of (renewable_energy ?Z) 2016 = Some (Some 10)"
    "map_of (co2_emissions ?Z) 2016 = Some (Some 0)"
    by (simp_all add: map_of_dict_set Region_def)
  have tax: "has_carbon_tax ?S" by (simp add: Region_def)
  note T = region_score_after_initialisation
      [where regs = "[(''A'', ?S)]" and regs' = regsa
         and rn = "''A''" and r = "?S"
         and regsz = "[(''B'', ?Z)]" and rnz = "''B''" and rz = "?Z" and rvz = 10]
  have "map_of [(''A'', ?S)] ''A'' = Some ?S" by simp
  with T [THEN conjunct1] run obtain r' where m: "map_of regsa ''A'' = Some r'"
    and sc: "\<forall>rv ev. map_of (renewable_energy ?S) 2016 = Some (Some rv) \<and>
                  map_of (co2_emissions ?S) 2016 = Some (Some ev) \<longrightarrow>
                  ev \<noteq> 0 \<and>
                  region_score r' = Some (if has_carbon_tax ?S then rv / ev * 10 else rv / ev)"
    by blast
  from sc [THEN spec, THEN spec, of 10 5] vals(1,2) tax
  have "region_score r' = Some 20" by simp
  with run m have first: "\<exists>regs' r'. initialise_region_score [(''A'', ?S)] = Inr regs' \<and>
      map_of regs' ''A'' = Some r' \<and> region_score r' = Some 20"
    by blast
  have "(''B'', ?Z) \<in> set [(''B'', ?Z)]" by simp
  with T [THEN conjunct2] keys vals(3,4)
  have second: "initialise_region_score [(''B'', ?Z)] = Inl ZeroDivisionError"
    by blast
  from first second show ?thesis by (rule conjI)
qed

text \<open>
  C1 as stated says that emissions equal to zero yield an absent score and never an error.
  For a region with renewable energy 10 and emissions 0 in 2016 the pass raises.
\<close>

theorem region_score_zero_emissions_counterexample:
  "initialise_region_score
     [(''A'', (Region ''A'' ''Asia'')
        \<lparr>co2_emissions := dict_set defualt_dict 2016 (Some 0),
         renewable_energy := dict_set defualt_dict 2016 (Some 10)\<rparr>)]
   = Inl ZeroDivisionError"
  by (simp add: initialise_region_score_def region_score_of_def Region_def
     dict_get_set_same py_div_def)

section \<open>Per-capita derivation\<close>

lemma min_key_eq: "d \<noteq> [] \<Longrightarrow> min_key d = Inr (Min (fst ` set d))"
proof -
  assume "d \<noteq> []"
  then obtain k v rest where d: "d = (k, v) # rest" by (cases d) auto
  have "fold min (map fst rest) k = Min (set (k # map fst rest))"
    by (simp only: Min.set_eq_fold)
  then show ?thesis by (simp add: d min_key_def)
qed

lemma has_window_keys_nonempty: "has_window_keys s \<Longrightarrow> s \<noteq> []"
  by (auto simp: has_window_keys_def)

lemma min_key_window: "has_window_keys s \<Longrightarrow> min_key s = Inr 1951"
proof -
  assume h: "has_window_keys s"
  then have "Min (fst ` set s) = Min {1951..2016::int}"
    by (simp add: has_window_keys_def)
  also have "\<dots> = 1951" by (rule Min_eqI) simp_all
  finally show ?thesis using h by (simp add: min_key_eq has_window_keys_nonempty)
qed

lemma min_key_in_window:
  assumes "keys_in_window s" and "s \<noteq> []"
  shows "\<exists>k. min_key s = Inr k \<and> 1951 \<le> k \<and> k \<le> 2016"
proof -
  have "Min (fst ` set s) \<in> fst ` set s"
    using assms(2) by (intro Min_in) auto
  with assms(1) have "1951 \<le> Min (fst ` set s) \<and> Min (fst ` set s) \<le> 2016"
    unfolding keys_in_window_def by blast
  with assms(2) show ?thesis by (simp add: min_key_eq)
qed

lemma per_capita_loop_entry:
  "per_capita_loop base pop ys out = Inr out' \<Longrightarrow>
   map_of out' y =
     (case (map_of base y, map_of pop y) of
        (Some (Some b), Some (Some p)) \<Rightarrow> if y \<in> set ys then Some (Some (b / p)) else map_of out y
      | _ \<Rightarrow> map_of out y)"
proof (induction ys arbitrary: out)
  case Nil
  then show ?case by (auto split: option.splits)
next
  case (Cons a ys)
  then show ?case
    by (auto simp: dict_get_def py_div_def map_of_dict_set
        split: option.splits sum.splits if_splits)
qed

lemma per_capita_loop_nonzero:
  "per_capita_loop base pop ys out = Inr out' \<Longrightarrow> y \<in> set ys \<Longrightarrow>
   map_of base y = Some (Some b) \<Longrightarrow> map_of pop y = Some (Some p) \<Longrightarrow> p \<noteq> 0"
  by (induction ys arbitrary: out)
     (auto simp: dict_get_def py_div_def split: option.splits sum.splits if_splits)

lemma per_capita_loop_keys:
  "per_capita_loop base pop ys out = Inr out' \<Longrightarrow>
   fst ` set out \<subseteq> fst ` set out' \<and> fst ` set out' \<subseteq> fst ` set out \<union> set ys"
proof (induction ys arbitrary: out)
  case Nil
  then show ?case by auto
next
  case (Cons a ys)
  show ?case
    using Cons.prems Cons.IH [of out] Cons.IH [of "dict_set out a (Some q)" for q]
    by (auto simp: dict_get_def py_div_def keys_dict_set
        split: option.splits sum.splits if_splits)
qed

lemma per_capita_loop_zero:
  "\<forall>y\<in>set ys. map_of base y \<noteq> None \<and> map_of pop y \<noteq> None \<Longrightarrow>
   \<exists>y\<in>set ys. \<exists>b. map_of base y = Some (Some b) \<and> map_of pop y = Some (Some 0) \<Longrightarrow>
   per_capita_loop base pop ys out = Inl ZeroDivisionError"
  by (induction ys arbitrary: out)
     (auto simp: dict_get_def py_div_def split: option.splits sum.splits if_splits)

lemma per_capita_loop_total:
  "\<forall>y\<in>set ys. map_of base y \<noteq> None \<and> map_of pop y \<noteq> None \<Longrightarrow>
   \<not> (\<exists>y\<in>set ys. \<exists>b. map_of base y = Some (Some b) \<and> map_of pop y = Some (Some 0)) \<Longrightarrow>
   \<exists>out'. per_capita_loop base pop ys out = Inr out'"
  by (induction ys arbitrary: out)
     (auto simp: dict_get_def py_div_def split: option.splits sum.splits if_splits)

lemma window_years: "y \<in> set [1951..2016] \<longleftrightarrow> 1951 \<le> y \<and> y \<le> 2016"
  by (simp only: set_upto atLeastAtMost_iff)

lemma has_window_keys_map_of:
  "has_window_keys s \<Longrightarrow> (map_of s y \<noteq> None) = (1951 \<le> y \<and> y \<le> 2016)"
  by (auto simp: has_window_keys_def map_of_eq_None_iff)

lemma per_capita_window:
  "has_window_keys pop \<Longrightarrow> has_window_keys base \<Longrightarrow>
   per_capita pop base out = per_capita_loop base pop [1951..2016] out"
  by (simp add: per_capita_def min_key_window has_window_keys_nonempty del: upto_rec_numeral)

lemma per_capita_loop_error:
  "\<forall>y\<in>set ys. map_of base y \<noteq> None \<and> map_of pop y \<noteq> None \<Longrightarrow>
   per_capita_loop base pop ys out = Inl e \<Longrightarrow> e = ZeroDivisionError"
  by (induction ys arbitrary: out)
     (auto simp: dict_get_def py_div_def split: option.splits sum.splits if_splits)

lemma window_keys_present:
  assumes "has_window_keys pop" and "has_window_keys base"
  shows "\<forall>y\<in>set [1951..2016]. map_of base y \<noteq> None \<and> map_of pop y \<noteq> None"
proof
  fix y :: int
  assume "y \<in> set [1951..2016]"
  then have "1951 \<le> y \<and> y \<le> 2016" by (simp only: window_years)
  then show "map_of base y \<noteq> None \<and> map_of pop y \<noteq> None"
    using has_window_keys_map_of [OF assms(1), of y] has_window_keys_map_of [OF assms(2), of y]
    by blast
qed

lemma per_capita_entry:
  assumes "has_window_keys pop" and "has_window_keys base"
    and "per_capita pop base out = Inr out'" and "1951 \<le> y" and "y \<le> 2016"
  shows "derived_entry_ok base pop out out' y"
proof -
  from assms(1-3) have loop: "per_capita_loop base pop [1951..2016] out = Inr out'"
    by (simp only: per_capita_window)
  have mem: "y \<in> set [1951..2016]"
    using assms(4,5) by (simp only: window_years)
  show ?thesis
    unfolding derived_entry_ok_def
  proof (intro conjI allI impI)
    fix b p
    assume "map_of base y = Some (Some b) \<and> map_of pop y = Some (Some p)"
    with per_capita_loop_entry [OF loop, of y] mem
    show "map_of out' y = Some (Some (b / p))"
      by (simp only: option.case prod.case if_True)
  next
    assume "map_of base y = Some None \<or> map_of pop y = Some None"
    with per_capita_loop_entry [OF loop, of y]
    show "map_of out' y = map_of out y"
      by (auto simp del: upto_rec_numeral set_upto split: option.splits)
  qed
qed

lemma per_capita_zero:
  assumes "has_window_keys pop" and "has_window_keys base"
    and "1951 \<le> y" and "y \<le> 2016"
    and "map_of base y = Some (Some b)" and "map_of pop y = Some (Some 0)"
  shows "per_capita pop base out = Inl ZeroDivisionError"
proof -
  have mem: "y \<in> set [1951..2016]"
    using assms(3,4) by (simp only: window_years)
  with assms(5,6)
  have "\<exists>y\<in>set [1951..2016]. \<exists>b. map_of base y = Some (Some b) \<and> map_of pop y = Some (Some 0)"
    by blast
  from per_capita_loop_zero [OF window_keys_present [OF assms(1,2)] this]
  show ?thesis using assms(1,2) by (simp only: per_capita_window)
qed

lemma per_capita_error:
  assumes "has_window_keys pop" and "has_window_keys base"
    and "per_capita pop base out = Inl e"
  shows "e = ZeroDivisionError"
  using per_capita_loop_error [OF window_keys_present [OF assms(1,2)]] assms
  by (simp only: per_capita_window)

lemma per_capita_total:
  assumes "has_window_keys pop" and "has_window_keys base"
    and "\<forall>y b. map_of base y = Some (Some b) \<longrightarrow> map_of pop y \<noteq> Some (Some 0)"
  shows "\<exists>out'. per_capita pop base out = Inr out'"
proof -
  have "\<not> (\<exists>y\<in>set [1951..2016]. \<exists>b. map_of base y = Some (Some b) \<and> map_of pop y = Some (Some 0))"
    using assms(3) by blast
  from per_capita_loop_total [OF window_keys_present [OF assms(1,2)] this]
  show ?thesis using assms(1,2) by (simp only: per_capita_window)
qed

lemma per_capita_keys_in_window:
  assumes "keys_in_window pop" and "keys_in_window base" and "keys_in_window out"
    and "per_capita pop base out = Inr out'"
  shows "keys_in_window out'"
proof (cases "pop = [] \<or> base = []")
  case True
  with assms show ?thesis by (simp add: per_capita_def)
next
  case False
  then obtain p0 b0 where p0: "min_key pop = Inr p0" "1951 \<le> p0"
    and b0: "min_key base = Inr b0"
    using min_key_in_window [OF assms(1)] min_key_in_window [OF assms(2)] by auto
  with False assms(4) have loop: "per_capita_loop base pop [max p0 b0..2016] out = Inr out'"
    by (simp add: per_capita_def)
  have sub: "fst ` set out' \<subseteq> fst ` set out \<union> set [max p0 b0..2016]"
    using per_capita_loop_keys [OF loop] by (rule conjunct2)
  show ?thesis
    unfolding keys_in_window_def
  proof
    fix y assume "y \<in> fst ` set out'"
    with sub have "y \<in> fst ` set out \<or> y \<in> set [max p0 b0..2016]" by blast
    then show "1951 \<le> y \<and> y \<le> 2016"
    proof
      assume "y \<in> fst ` set out"
      with assms(3) show ?thesis unfolding keys_in_window_def by (rule bspec)
    next
      assume "y \<in> set [max p0 b0..2016]"
      then have "max p0 b0 \<le> y \<and> y \<le> 2016" by (simp only: set_upto atLeastAtMost_iff)
      with p0(2) show ?thesis by linarith
    qed
  qed
qed

lemma per_capita_has_window_keys:
  assumes "has_window_keys pop" and "has_window_keys base" and "has_window_keys out"
    and "per_capita pop base out = Inr out'"
  shows "has_window_keys out'"
proof -
  from assms(1,2,4) have loop: "per_capita_loop base pop [1951..2016] out = Inr out'"
    by (simp only: per_capita_window)
  have w: "set [1951..2016] = {1951..2016::int}"
    by (rule set_upto)
  have o: "fst ` set out = {1951..2016}"
    using assms(3) by (simp only: has_window_keys_def)
  have "fst ` set out \<subseteq> fst ` set out'" and "fst ` set out' \<subseteq> fst ` set out \<union> set [1951..2016]"
    using per_capita_loop_keys [OF loop] by (rule conjunct1, rule conjunct2)
  then have "{1951..2016} \<subseteq> fst ` set out'" and "fst ` set out' \<subseteq> {1951..2016}"
    by (simp_all only: o w Un_absorb)
  then have "fst ` set out' = {1951..2016}" by (rule subset_antisym [OF _ _, rotated])
  then show ?thesis by (simp only: has_window_keys_def)
qed

lemma keys_defualt_dict: "has_window_keys defualt_dict"
  unfolding has_window_keys_def defualt_dict_def
  by (simp only: set_map image_image fst_conv image_ident set_upto)

lemma map_of_defualt_dict:
  "map_of defualt_dict y = (if 1951 \<le> y \<and> y \<le> 2016 then Some None else None)"
  unfolding defualt_dict_def
  by (simp only: map_of_map_restrict restrict_map_def set_upto atLeastAtMost_iff o_def)

lemma has_window_keys_dict_set:
  "has_window_keys s \<Longrightarrow> 1951 \<le> y \<Longrightarrow> y \<le> 2016 \<Longrightarrow> has_window_keys (dict_set s y v)"
  unfolding has_window_keys_def by (auto simp: keys_dict_set)

lemma keys_in_window_dict_set:
  "keys_in_window s \<Longrightarrow> 1951 \<le> y \<Longrightarrow> y \<le> 2016 \<Longrightarrow> keys_in_window (dict_set s y v)"
  unfolding keys_in_window_def by (auto simp: keys_dict_set)

lemma has_window_keys_in_window: "has_window_keys s \<Longrightarrow> keys_in_window s"
  unfolding has_window_keys_def keys_in_window_def by simp

lemma derive_pass_entry:
  assumes f: "\<And>q. f q = (case per_capita (population q) (B q) (D q) of
                            Inl e \<Rightarrow> Inl e | Inr s \<Rightarrow> Inr (U s q))"
    and D: "\<And>s q. D (U s q) = s"
    and run: "for_each_region f regs = Inr regs'"
    and r: "map_of regs rn = Some r"
    and wf: "has_window_keys (population r)" "has_window_keys (B r)"
    and y: "1951 \<le> y" "y \<le> 2016"
  shows "\<exists>r'. map_of regs' rn = Some r' \<and>
              derived_entry_ok (B r) (population r) (D r) (D r') y"
proof -
  from for_each_region_Inr [OF run] r obtain r' where
    fr: "f r = Inr r'" and m: "map_of regs' rn = Some r'" by blast
  from fr obtain s where pc: "per_capita (population r) (B r) (D r) = Inr s"
    and r': "r' = U s r"
    by (auto simp: f split: sum.splits)
  from per_capita_entry [OF wf pc y] have "derived_entry_ok (B r) (population r) (D r) s y" .
  with m r' D show ?thesis by simp
qed

lemma derive_pass_total:
  assumes f: "\<And>q. f q = (case per_capita (population q) (B q) (D q) of
                            Inl e \<Rightarrow> Inl e | Inr s \<Rightarrow> Inr (U s q))"
    and wf: "\<forall>(k, q)\<in>set regs. has_window_keys (population q) \<and> has_window_keys (B q)"
    and nz: "\<forall>(k, q)\<in>set regs. \<forall>y b. map_of (B q) y = Some (Some b) \<longrightarrow>
               map_of (population q) y \<noteq> Some (Some 0)"
  shows "\<exists>regs'. for_each_region f regs = Inr regs'"
proof (rule for_each_region_total, clarify)
  fix k q assume q: "(k, q) \<in> set regs"
  with wf have w: "has_window_keys (population q)" "has_window_keys (B q)" by auto
  from nz q have "\<forall>y b. map_of (B q) y = Some (Some b) \<longrightarrow>
               map_of (population q) y \<noteq> Some (Some 0)" by auto
  from per_capita_total [OF w this, of "D q"] show "\<exists>r'. f q = Inr r'"
    by (auto simp: f)
qed

lemma derive_pass_zero:
  assumes f: "\<And>q. f q = (case per_capita (population q) (B q) (D q) of
                            Inl e \<Rightarrow> Inl e | Inr s \<Rightarrow> Inr (U s q))"
    and wf: "\<forall>(k, q)\<in>set regs. has_window_keys (population q) \<and> has_window_keys (B q)"
    and r: "map_of regs rn = Some r"
    and y: "1951 \<le> y" "y \<le> 2016"
    and b: "map_of (B r) y = Some (Some b)"
    and z: "map_of (population r) y = Some (Some 0)"
  shows "for_each_region f regs = Inl ZeroDivisionError"
proof (rule for_each_region_Inl [of rn r])
  show mem: "(rn, r) \<in> set regs" using r by (rule map_of_SomeD)
  with wf have w: "has_window_keys (population r)" "has_window_keys (B r)" by auto
  from per_capita_zero [OF w y b z, of "D r"] show "f r = Inl ZeroDivisionError"
    by (simp add: f)
  show "\<forall>(k', q)\<in>set regs. \<forall>e'. f q = Inl e' \<longrightarrow> e' = ZeroDivisionError"
  proof (clarify)
    fix k' q e' assume q: "(k', q) \<in> set regs" and e: "f q = Inl e'"
    from wf q have w: "has_window_keys (population q)" "has_window_keys (B q)" by auto
    from e have "per_capita (population q) (B q) (D q) = Inl e'"
      by (auto simp: f split: sum.splits)
    from per_capita_error [OF w this] show "e' = ZeroDivisionError" .
  qed
qed

lemma all_series_members:
  assumes "all_series P regs" and "(k, q) \<in> set regs"
  shows "P (population q)" "P (co2_emissions q)" "P (co2_emissions_per_capita q)"
    "P (gdp q)" "P (gdp_per_capita q)" "P (renewable_energy q)"
    "P (renewable_energy_per_capita q)"
  using assms by (auto simp: all_series_def region_series_def)

lemma gdp_per_capita_of_shape:
  "gdp_per_capita_of q =
     (case per_capita (population q) (gdp q) (gdp_per_capita q) of
        Inl e \<Rightarrow> Inl e | Inr s \<Rightarrow> Inr (q\<lparr>gdp_per_capita := s\<rparr>))"
  by (simp add: gdp_per_capita_of_def)

lemma co2_emissions_per_capita_of_shape:
  "co2_emissions_per_capita_of q =
     (case per_capita (population q) (co2_emissions q) (co2_emissions_per_capita q) of
        Inl e \<Rightarrow> Inl e | Inr s \<Rightarrow> Inr (q\<lparr>co2_emissions_per_capita := s\<rparr>))"
  by (simp add: co2_emissions_per_capita_of_def)

lemma renewables_per_capita_of_shape:
  "renewables_per_capita_of q =
     (case per_capita (population q) (renewable_energy q) (renewable_energy_per_capita q) of
        Inl e \<Rightarrow> Inl e | Inr s \<Rightarrow> Inr (q\<lparr>renewable_energy_per_capita := s\<rparr>))"
  by (simp add: renewables_per_capita_of_def)

lemma derive_pass_ok:
  assumes f: "\<And>q. f q = (case per_capita (population q) (B q) (D q) of
                            Inl e \<Rightarrow> Inl e | Inr s \<Rightarrow> Inr (U s q))"
    and D: "\<And>s q. D (U s q) = s"
    and wf: "\<forall>(k, q)\<in>set regs. has_window_keys (population q) \<and> has_window_keys (B q)"
    and nz: "\<forall>(k, q)\<in>set regs. \<forall>y. map_of (population q) y \<noteq> Some (Some 0)"
    and r: "map_of regs rn = Some r"
    and y: "1951 \<le> y" "y \<le> 2016"
  shows "\<exists>regs' r'. for_each_region f regs = Inr regs' \<and> map_of regs' rn = Some r' \<and>
           derived_entry_ok (B r) (population r) (D r) (D r') y"
proof -
  from nz have "\<forall>(k, q)\<in>set regs. \<forall>y b. map_of (B q) y = Some (Some b) \<longrightarrow>
               map_of (population q) y \<noteq> Some (Some 0)" by blast
  from derive_pass_total [where f = f and B = B and D = D and U = U, OF f wf this]
  obtain regs' where run: "for_each_region f regs = Inr regs'" by blast
  have mem: "(rn, r) \<in> set regs" using r by (rule map_of_SomeD)
  with wf have w: "has_window_keys (population r)" "has_window_keys (B r)" by auto
  from derive_pass_entry [where f = f and B = B and D = D and U = U, OF f D run r w y] run show ?thesis by blast
qed

text \<open>
  Claim C6, as the code has it. A pass runs over all regions and all years and stops at the
  first division by zero, so the entry of one year depends on the population of the others.
  Let every series of every region have the window years as its keys, and let no population
  value of any region be zero. Then each of the three per-capita passes completes, and for
  every region and every year of the window the derived entry is the quotient
  \<open>B[year] / population[year]\<close> when both values are present, and is the entry the derived
  series had before (\<^verbatim>\<open>None\<close> since construction) when one of them is \<^verbatim>\<open>None\<close>.
\<close>

theorem per_capita_derivation:
  assumes "all_series has_window_keys regs"
    and "\<forall>(k, q)\<in>set regs. \<forall>y. map_of (population q) y \<noteq> Some (Some 0)"
    and "map_of regs rn = Some r" and "1951 \<le> y" and "y \<le> 2016"
  shows
    "(\<exists>regs' r'. initialise_gdp_per_capita regs = Inr regs' \<and> map_of regs' rn = Some r' \<and>
        derived_entry_ok (gdp r) (population r) (gdp_per_capita r) (gdp_per_capita r') y) \<and>
     (\<exists>regs' r'. initialise_co2_emissions_per_capita regs = Inr regs' \<and>
        map_of regs' rn = Some r' \<and>
        derived_entry_ok (co2_emissions r) (population r) (co2_emissions_per_capita r)
          (co2_emissions_per_capita r') y) \<and>
     (\<exists>regs' r'. initialise_renewables_per_capita regs = Inr regs' \<and>
        map_of regs' rn = Some r' \<and>
        derived_entry_ok (renewable_energy r) (population r) (renewable_energy_per_capita r)
          (renewable_energy_per_capita r') y)"
proof (intro conjI)
  have wg: "\<forall>(k, q)\<in>set regs. has_window_keys (population q) \<and> has_window_keys (gdp q)"
    and wc: "\<forall>(k, q)\<in>set regs.
               has_window_keys (population q) \<and> has_window_keys (co2_emissions q)"
    and wr: "\<forall>(k, q)\<in>set regs.
               has_window_keys (population q) \<and> has_window_keys (renewable_energy q)"
    using assms(1) by (auto dest: all_series_members)
  show "\<exists>regs' r'. initialise_gdp_per_capita regs = Inr regs' \<and> map_of regs' rn = Some r' \<and>
        derived_entry_ok (gdp r) (population r) (gdp_per_capita r) (gdp_per_capita r') y"
    unfolding initialise_gdp_per_capita_def
    by (rule derive_pass_ok [where U = "\<lambda>s q. q\<lparr>gdp_per_capita := s\<rparr>",
          OF gdp_per_capita_of_shape _ wg assms(2-5)]) simp
  show "\<exists>regs' r'. initialise_co2_emissions_per_capita regs = Inr regs' \<and>
        map_of regs' rn = Some r' \<and>
        derived_entry_ok (co2_emissions r) (population r) (co2_emissions_per_capita r)
          (co2_emissions_per_capita r') y"
    unfolding initialise_co2_emissions_per_capita_def
    by (rule derive_pass_ok [where U = "\<lambda>s q. q\<lparr>co2_emissions_per_capita := s\<rparr>",
          OF co2_emissions_per_capita_of_shape _ wc assms(2-5)]) simp
  show "\<exists>regs' r'. initialise_renewables_per_capita regs = Inr regs' \<and>
        map_of regs' rn = Some r' \<and>
        derived_entry_ok (renewable_energy r) (population r) (renewable_energy_per_capita r)
          (renewable_energy_per_capita r') y"
    unfolding initialise_renewables_per_capita_def
    by (rule derive_pass_ok [where U = "\<lambda>s q. q\<lparr>renewable_energy_per_capita := s\<rparr>",
          OF renewables_per_capita_of_shape _ wr assms(2-5)]) simp
qed

text \<open>
  C6 at the sample of the specification: population 100 in 2000 and 200 in 2001, emissions
  50 in 2000. The derived entry is 0.5 for 2000 and stays \<^verbatim>\<open>None\<close> for 2001.
\<close>

theorem per_capita_derivation_witness:
  "\<exists>regs' r'.
     initialise_co2_emissions_per_capita
       [(''A'', (Region ''A'' ''Asia'')
          \<lparr>population := dict_set (dict_set defualt_dict 2000 (Some 100)) 2001 (Some 200),
           co2_emissions := dict_set defualt_dict 2000 (Some 50)\<rparr>)] = Inr regs' \<and>
     map_of regs' ''A'' = Some r' \<and>
     map_of (co2_emissions_per_capita r') 2000 = Some (Some (1 / 2)) \<and>
     map_of (co2_emissions_per_capita r') 2001 = Some None"
proof -
  let ?R = "(Region ''A'' ''Asia'')
          \<lparr>population := dict_set (dict_set defualt_dict 2000 (Some 100)) 2001 (Some 200),
           co2_emissions := dict_set defualt_dict 2000 (Some 50)\<rparr>"
  have wf: "all_series has_window_keys [(''A'', ?R)]"
    by (simp add: all_series_def region_series_def Region_def keys_defualt_dict
        has_window_keys_dict_set)
  have nz: "\<forall>(k, q)\<in>set [(''A'', ?R)]. \<forall>y. map_of (population q) y \<noteq> Some (Some 0)"
    by (simp add: Region_def map_of_dict_set map_of_defualt_dict)
  have m: "map_of [(''A'', ?R)] ''A'' = Some ?R"
    by simp
  have vals: "map_of (co2_emissions ?R) 2000 = Some (Some 50)"
    "map_of (population ?R) 2000 = Some (Some 100)"
    "map_of (co2_emissions ?R) 2001 = Some None"
    "map_of (co2_emissions_per_capita ?R) 2001 = Some None"
    by (simp_all add: Region_def map_of_dict_set map_of_defualt_dict)
  from per_capita_derivation [OF wf nz m, of 2000] per_capita_derivation [OF wf nz m, of 2001]
  obtain regs' r' where
    run: "initialise_co2_emissions_per_capita [(''A'', ?R)] = Inr regs'"
    and m': "map_of regs' ''A'' = Some r'"
    and e0: "derived_entry_ok (co2_emissions ?R) (population ?R) (co2_emissions_per_capita ?R)
          (co2_emissions_per_capita r') 2000"
    and e1: "derived_entry_ok (co2_emissions ?R) (population ?R) (co2_emissions_per_capita ?R)
          (co2_emissions_per_capita r') 2001"
    by auto
  from e0 vals have "map_of (co2_emissions_per_capita r') 2000 = Some (Some (1 / 2))"
    unfolding derived_entry_ok_def by simp
  moreover from e1 vals have "map_of (co2_emissions_per_capita r') 2001 = Some None"
    unfolding derived_entry_ok_def by simp
  ultimately show ?thesis using run m' by blast
qed

text \<open>
  C6 as stated conditions only on the year in question. With population 0 and gdp 5 in 2000,
  and population 100 and gdp 50 in 2001, the year 2001 has both values present and a nonzero
  population, yet the gdp-per-capita pass raises at 2000 and derives no entry for 2001.
\<close>

theorem per_capita_derivation_counterexample:
  "map_of (population ((Region ''A'' ''Asia'')
        \<lparr>population := dict_set (dict_set defualt_dict 2000 (Some 0)) 2001 (Some 100),
         gdp := dict_set (dict_set defualt_dict 2000 (Some 5)) 2001 (Some 50)\<rparr>)) 2001 =
     Some (Some 100) \<and>
   map_of (gdp ((Region ''A'' ''Asia'')
        \<lparr>population := dict_set (dict_set defualt_dict 2000 (Some 0)) 2001 (Some 100),
         gdp := dict_set (dict_set defualt_dict 2000 (Some 5)) 2001 (Some 50)\<rparr>)) 2001 =
     Some (Some 50) \<and>
   initialise_gdp_per_capita
     [(''A'', (Region ''A'' ''Asia'')
        \<lparr>population := dict_set (dict_set defualt_dict 2000 (Some 0)) 2001 (Some 100),
         gdp := dict_set (dict_set defualt_dict 2000 (Some 5)) 2001 (Some 50)\<rparr>)] =
     Inl ZeroDivisionError"
proof -
  let ?A = "(Region ''A'' ''Asia'')
        \<lparr>population := dict_set (dict_set defualt_dict 2000 (Some 0)) 2001 (Some 100),
         gdp := dict_set (dict_set defualt_dict 2000 (Some 5)) 2001 (Some 50)\<rparr>"
  have w: "\<forall>(k, q)\<in>set [(''A'', ?A)]. has_window_keys (population q) \<and> has_window_keys (gdp q)"
    by (simp add: Region_def keys_defualt_dict has_window_keys_dict_set)
  have m: "map_of [(''A'', ?A)] ''A'' = Some ?A" by simp
  have b: "map_of (gdp ?A) 2000 = Some (Some 5)"
    and z: "map_of (population ?A) 2000 = Some (Some 0)"
    and p: "map_of (population ?A) 2001 = Some (Some 100)"
    and g: "map_of (gdp ?A) 2001 = Some (Some 50)"
    by (simp_all add: Region_def map_of_dict_set)
  have run: "initialise_gdp_per_capita [(''A'', ?A)] = Inl ZeroDivisionError"
    unfolding initialise_gdp_per_capita_def
    by (rule derive_pass_zero [where U = "\<lambda>s q. q\<lparr>gdp_per_capita := s\<rparr>",
          OF gdp_per_capita_of_shape w m _ _ b z]) simp_all
  from p g run show ?thesis by (intro conjI)
qed

lemma derive_pass_stays:
  assumes f: "\<And>q. f q = (case per_capita (population q) (B q) (D q) of
                            Inl e \<Rightarrow> Inl e | Inr s \<Rightarrow> Inr (U s q))"
    and D: "\<And>s q. D (U s q) = s"
    and wf: "\<forall>(k, q)\<in>set regs. has_window_keys (population q) \<and> has_window_keys (B q)"
    and r: "map_of regs rn = Some r"
    and y: "1951 \<le> y" "y \<le> 2016"
    and b: "map_of (B r) y = Some None"
    and run: "for_each_region f regs = Inr regs'"
  shows "\<exists>r'. map_of regs' rn = Some r' \<and> map_of (D r') y = map_of (D r) y"
proof -
  have mem: "(rn, r) \<in> set regs" using r by (rule map_of_SomeD)
  with wf have w: "has_window_keys (population r)" "has_window_keys (B r)" by auto
  from derive_pass_entry [where f = f and B = B and D = D and U = U, OF f D run r w y] b
  show ?thesis unfolding derived_entry_ok_def by blast
qed

text \<open>
  Claim C5, as the code has it. Let every series of every region have the window years as
  its keys, and let a region have the population value zero in a year of the window. If the
  base value of that year is present, the per-capita pass does not leave the derived entry
  absent: it fails with \<^verbatim>\<open>ZeroDivisionError\<close>. Only if the base value of that year is
  \<^verbatim>\<open>None\<close> and the pass completes does the derived entry stay as it was. This holds for
  each of the three passes.
\<close>

theorem per_capita_zero_population:
  assumes "all_series has_window_keys regs"
    and "map_of regs rn = Some r" and "1951 \<le> y" and "y \<le> 2016"
    and "map_of (population r) y = Some (Some 0)"
  shows
    "(\<forall>b. map_of (gdp r) y = Some (Some b) \<longrightarrow>
        initialise_gdp_per_capita regs = Inl ZeroDivisionError) \<and>
     (\<forall>b. map_of (co2_emissions r) y = Some (Some b) \<longrightarrow>
        initialise_co2_emissions_per_capita regs = Inl ZeroDivisionError) \<and>
     (\<forall>b. map_of (renewable_energy r) y = Some (Some b) \<longrightarrow>
        initialise_renewables_per_capita regs = Inl ZeroDivisionError) \<and>
     (\<forall>regs'. map_of (gdp r) y = Some None \<and> initialise_gdp_per_capita regs = Inr regs' \<longrightarrow>
        (\<exists>r'. map_of regs' rn = Some r' \<and>
              map_of (gdp_per_capita r') y = map_of (gdp_per_capita r) y)) \<and>
     (\<forall>regs'. map_of (co2_emissions r) y = Some None \<and>
        initialise_co2_emissions_per_capita regs = Inr regs' \<longrightarrow>
        (\<exists>r'. map_of regs' rn = Some r' \<and>
              map_of (co2_emissions_per_capita r') y = map_of (co2_emissions_per_capita r) y)) \<and>
     (\<forall>regs'. map_of (renewable_energy r) y = Some None \<and>
        initialise_renewables_per_capita regs = Inr regs' \<longrightarrow>
        (\<exists>r'. map_of regs' rn = Some r' \<and>
              map_of (renewable_energy_per_capita r') y =
              map_of (renewable_energy_per_capita r) y))"
proof -
  have wg: "\<forall>(k, q)\<in>set regs. has_window_keys (population q) \<and> has_window_keys (gdp q)"
    and wc: "\<forall>(k, q)\<in>set regs.
               has_window_keys (population q) \<and> has_window_keys (co2_emissions q)"
    and wr: "\<forall>(k, q)\<in>set regs.
               has_window_keys (population q) \<and> has_window_keys (renewable_energy q)"
    using assms(1) by (auto dest: all_series_members)
  have g: "initialise_gdp_per_capita regs = Inl ZeroDivisionError"
    if "map_of (gdp r) y = Some (Some b)" for b
    unfolding initialise_gdp_per_capita_def
    by (rule derive_pass_zero [where U = "\<lambda>s q. q\<lparr>gdp_per_capita := s\<rparr>",
          OF gdp_per_capita_of_shape wg assms(2-4) that assms(5)])
  have c: "initialise_co2_emissions_per_capita regs = Inl ZeroDivisionError"
    if "map_of (co2_emissions r) y = Some (Some b)" for b
    unfolding initialise_co2_emissions_per_capita_def
    by (rule derive_pass_zero [where U = "\<lambda>s q. q\<lparr>co2_emissions_per_capita := s\<rparr>",
          OF co2_emissions_per_capita_of_shape wc assms(2-4) that assms(5)])
  have e: "initialise_renewables_per_capita regs = Inl ZeroDivisionError"
    if "map_of (renewable_energy r) y = Some (Some b)" for b
    unfolding initialise_renewables_per_capita_def
    by (rule derive_pass_zero [where U = "\<lambda>s q. q\<lparr>renewable_energy_per_capita := s\<rparr>",
          OF renewables_per_capita_of_shape wr assms(2-4) that assms(5)])
  have g': "\<exists>r'. map_of regs' rn = Some r' \<and>
              map_of (gdp_per_capita r') y = map_of (gdp_per_capita r) y"
    if "map_of (gdp r) y = Some None" "initialise_gdp_per_capita regs = Inr regs'" for regs'
    by (rule derive_pass_stays [where U = "\<lambda>s q. q\<lparr>gdp_per_capita := s\<rparr>"
          and f = gdp_per_capita_of and B = gdp,
          OF gdp_per_capita_of_shape _ wg assms(2-4) that(1)
             that(2) [unfolded initialise_gdp_per_capita_def]]) simp
  have c': "\<exists>r'. map_of regs' rn = Some r' \<and>
              map_of (co2_emissions_per_capita r') y = map_of (co2_emissions_per_capita r) y"
    if "map_of (co2_emissions r) y = Some None"
      "initialise_co2_emissions_per_capita regs = Inr regs'" for regs'
    by (rule derive_pass_stays [where U = "\<lambda>s q. q\<lparr>co2_emissions_per_capita := s\<rparr>"
          and f = co2_emissions_per_capita_of and B = co2_emissions,
          OF co2_emissions_per_capita_of_shape _ wc assms(2-4) that(1)
             that(2) [unfolded initialise_co2_emissions_per_capita_def]]) simp
  have e': "\<exists>r'. map_of regs' rn = Some r' \<and>
              map_of (renewable_energy_per_capita r') y =
              map_of (renewable_energy_per_capita r) y"
    if "map_of (renewable_energy r) y = Some None"
      "initialise_renewables_per_capita regs = Inr regs'" for regs'
    by (rule derive_pass_stays [where U = "\<lambda>s q. q\<lparr>renewable_energy_per_capita := s\<rparr>"
          and f = renewables_per_capita_of and B = renewable_energy,
          OF renewables_per_capita_of_shape _ wr assms(2-4) that(1)
             that(2) [unfolded initialise_renewables_per_capita_def]]) simp
  from g c e g' c' e' show ?thesis by blast
qed

text \<open>
  C5 at concrete registries. Region A has population 0, gdp 5 and emissions 7 in 2000 and no
  renewable-energy data; region B has population 0 and renewable energy 3 in 2000 and no
  other data.
\<close>

theorem per_capita_zero_population_witness:
  "initialise_gdp_per_capita
     [(''A'', (Region ''A'' ''Asia'')
        \<lparr>population := dict_set defualt_dict 2000 (Some 0),
         co2_emissions := dict_set defualt_dict 2000 (Some 7),
         gdp := dict_set defualt_dict 2000 (Some 5)\<rparr>)] = Inl ZeroDivisionError \<and>
   initialise_co2_emissions_per_capita
     [(''A'', (Region ''A'' ''Asia'')
        \<lparr>population := dict_set defualt_dict 2000 (Some 0),
         co2_emissions := dict_set defualt_dict 2000 (Some 7),
         gdp := dict_set defualt_dict 2000 (Some 5)\<rparr>)] = Inl ZeroDivisionError \<and>
   initialise_renewables_per_capita
     [(''B'', (Region ''B'' ''Asia'')
        \<lparr>population := dict_set defualt_dict 2000 (Some 0),
         renewable_energy := dict_set defualt_dict 2000 (Some 3)\<rparr>)] = Inl ZeroDivisionError \<and>
   (\<exists>regs' r'.
      initialise_renewables_per_capita
        [(''A'', (Region ''A'' ''Asia'')
           \<lparr>population := dict_set defualt_dict 2000 (Some 0),
            co2_emissions := dict_set defualt_dict 2000 (Some 7),
            gdp := dict_set defualt_dict 2000 (Some 5)\<rparr>)] = Inr regs' \<and>
      map_of regs' ''A'' = Some r' \<and>
      map_of (renewable_energy_per_capita r') 2000 = Some None) \<and>
   (\<exists>regs' r'.
      initialise_gdp_per_capita
        [(''B'', (Region ''B'' ''Asia'')
           \<lparr>population := dict_set defualt_dict 2000 (Some 0),
            renewable_energy := dict_set defualt_dict 2000 (Some 3)\<rparr>)] = Inr regs' \<and>
      map_of regs' ''B'' = Some r' \<and>
      map_of (gdp_per_capita r') 2000 = Some None) \<and>
   (\<exists>regs' r'.
      initialise_co2_emissions_per_capita
        [(''B'', (Region ''B'' ''Asia'')
           \<lparr>population := dict_set defualt_dict 2000 (Some 0),
            renewable_energy := dict_set defualt_dict 2000 (Some 3)\<rparr>)] = Inr regs' \<and>
      map_of regs' ''B'' = Some r' \<and>
      map_of (co2_emissions_per_capita r') 2000 = Some None)"
proof -
  let ?A = "(Region ''A'' ''Asia'')
        \<lparr>population := dict_set defualt_dict 2000 (Some 0),
         co2_emissions := dict_set defualt_dict 2000 (Some 7),
         gdp := dict_set defualt_dict 2000 (Some 5)\<rparr>"
  let ?B = "(Region ''B'' ''Asia'')
        \<lparr>population := dict_set defualt_dict 2000 (Some 0),
         renewable_energy := dict_set defualt_dict 2000 (Some 3)\<rparr>"
  have wfA: "all_series has_window_keys [(''A'', ?A)]"
    and wfB: "all_series has_window_keys [(''B'', ?B)]"
    by (simp_all add: all_series_def region_series_def Region_def keys_defualt_dict
        has_window_keys_dict_set)
  have mA: "map_of [(''A'', ?A)] ''A'' = Some ?A" and mB: "map_of [(''B'', ?B)] ''B'' = Some ?B"
    by simp_all
  have zA: "map_of (population ?A) 2000 = Some (Some 0)"
    and zB: "map_of (population ?B) 2000 = Some (Some 0)"
    by (simp_all add: Region_def map_of_dict_set)
  have vals:
    "map_of (gdp ?A) 2000 = Some (Some 5)"
    "map_of (co2_emissions ?A) 2000 = Some (Some 7)"
    "map_of (renewable_energy ?A) 2000 = Some None"
    "map_of (renewable_energy_per_capita ?A) 2000 = Some None"
    "map_of (renewable_energy ?B) 2000 = Some (Some 3)"
    "map_of (gdp ?B) 2000 = Some None"
    "map_of (gdp_per_capita ?B) 2000 = Some None"
    "map_of (co2_emissions ?B) 2000 = Some None"
    "map_of (co2_emissions_per_capita ?B) 2000 = Some None"
    by (simp_all add: Region_def map_of_dict_set map_of_defualt_dict)
  have wA: "\<forall>(k, q)\<in>set [(''A'', ?A)].
              has_window_keys (population q) \<and> has_window_keys (renewable_energy q)"
    and wBg: "\<forall>(k, q)\<in>set [(''B'', ?B)].
              has_window_keys (population q) \<and> has_window_keys (gdp q)"
    and wBc: "\<forall>(k, q)\<in>set [(''B'', ?B)].
              has_window_keys (population q) \<and> has_window_keys (co2_emissions q)"
    by (simp_all add: Region_def keys_defualt_dict has_window_keys_dict_set)
  have nA: "\<forall>(k, q)\<in>set [(''A'', ?A)]. \<forall>y b.
              map_of (renewable_energy q) y = Some (Some b) \<longrightarrow>
              map_of (population q) y \<noteq> Some (Some 0)"
    and nBg: "\<forall>(k, q)\<in>set [(''B'', ?B)]. \<forall>y b.
              map_of (gdp q) y = Some (Some b) \<longrightarrow> map_of (population q) y \<noteq> Some (Some 0)"
    and nBc: "\<forall>(k, q)\<in>set [(''B'', ?B)]. \<forall>y b.
              map_of (co2_emissions q) y = Some (Some b) \<longrightarrow>
              map_of (population q) y \<noteq> Some (Some 0)"
    by (simp_all add: Region_def map_of_defualt_dict)
  obtain ra where ra: "initialise_renewables_per_capita [(''A'', ?A)] = Inr ra"
    using derive_pass_total [where U = "\<lambda>s q. q\<lparr>renewable_energy_per_capita := s\<rparr>",
        OF renewables_per_capita_of_shape wA nA]
    unfolding initialise_renewables_per_capita_def by blast
  obtain gb where gb: "initialise_gdp_per_capita [(''B'', ?B)] = Inr gb"
    using derive_pass_total [where U = "\<lambda>s q. q\<lparr>gdp_per_capita := s\<rparr>",
        OF gdp_per_capita_of_shape wBg nBg]
    unfolding initialise_gdp_per_capita_def by blast
  obtain cb where cb: "initialise_co2_emissions_per_capita [(''B'', ?B)] = Inr cb"
    using derive_pass_total [where U = "\<lambda>s q. q\<lparr>co2_emissions_per_capita := s\<rparr>",
        OF co2_emissions_per_capita_of_shape wBc nBc]
    unfolding initialise_co2_emissions_per_capita_def by blast
  have y: "(1951::int) \<le> 2000" "(2000::int) \<le> 2016" by simp_all
  note tA = per_capita_zero_population [OF wfA mA y zA]
  note tB = per_capita_zero_population [OF wfB mB y zB]
  have c1: "initialise_gdp_per_capita [(''A'', ?A)] = Inl ZeroDivisionError"
    by (rule tA [THEN conjunct1, rule_format, OF vals(1)])
  have c2: "initialise_co2_emissions_per_capita [(''A'', ?A)] = Inl ZeroDivisionError"
    by (rule tA [THEN conjunct2, THEN conjunct1, rule_format, OF vals(2)])
  have c3: "initialise_renewables_per_capita [(''B'', ?B)] = Inl ZeroDivisionError"
    by (rule tB [THEN conjunct2, THEN conjunct2, THEN conjunct1, rule_format, OF vals(5)])
  have c4: "\<exists>r'. map_of ra ''A'' = Some r' \<and>
              map_of (renewable_energy_per_capita r') 2000 =
              map_of (renewable_energy_per_capita ?A) 2000"
    by (rule tA [THEN conjunct2, THEN conjunct2, THEN conjunct2, THEN conjunct2,
          THEN conjunct2, rule_format, OF conjI [OF vals(3) ra]])
  have c5: "\<exists>r'. map_of gb ''B'' = Some r' \<and>
              map_of (gdp_per_capita r') 2000 = map_of (gdp_per_capita ?B) 2000"
    by (rule tB [THEN conjunct2, THEN conjunct2, THEN conjunct2, THEN conjunct1,
          rule_format, OF conjI [OF vals(6) gb]])
  have c6: "\<exists>r'. map_of cb ''B'' = Some r' \<and>
              map_of (co2_emissions_per_capita r') 2000 =
              map_of (co2_emissions_per_capita ?B) 2000"
    by (rule tB [THEN conjunct2, THEN conjunct2, THEN conjunct2, THEN conjunct2,
          THEN conjunct1, rule_format, OF conjI [OF vals(8) cb]])
  from c4 ra vals(4)
  have d4: "\<exists>regs' r'. initialise_renewables_per_capita [(''A'', ?A)] = Inr regs' \<and>
      map_of regs' ''A'' = Some r' \<and>
      map_of (renewable_energy_per_capita r') 2000 = Some None"
    by (elim exE conjE, intro exI conjI) (assumption, assumption, simp only:)
  from c5 gb vals(7)
  have d5: "\<exists>regs' r'. initialise_gdp_per_capita [(''B'', ?B)] = Inr regs' \<and>
      map_of regs' ''B'' = Some r' \<and> map_of (gdp_per_capita r') 2000 = Some None"
    by (elim exE conjE, intro exI conjI) (assumption, assumption, simp only:)
  from c6 cb vals(9)
  have d6: "\<exists>regs' r'. initialise_co2_emissions_per_capita [(''B'', ?B)] = Inr regs' \<and>
      map_of regs' ''B'' = Some r' \<and> map_of (co2_emissions_per_capita r') 2000 = Some None"
    by (elim exE conjE, intro exI conjI) (assumption, assumption, simp only:)
  from c1 c2 c3 d4 d5 d6 show ?thesis
    by (intro conjI)
qed

text \<open>
  C5 as stated says that a population of zero leaves the derived entry absent and raises no
  error. With population 0 and gdp 5 in 2000 the gdp-per-capita pass raises.
\<close>

theorem per_capita_zero_population_counterexample:
  "initialise_gdp_per_capita
     [(''A'', (Region ''A'' ''Asia'')
        \<lparr>population := dict_set defualt_dict 2000 (Some 0),
         gdp := dict_set defualt_dict 2000 (Some 5)\<rparr>)] = Inl ZeroDivisionError"
proof -
  let ?A = "(Region ''A'' ''Asia'')
        \<lparr>population := dict_set defualt_dict 2000 (Some 0),
         gdp := dict_set defualt_dict 2000 (Some 5)\<rparr>"
  have w: "\<forall>(k, q)\<in>set [(''A'', ?A)]. has_window_keys (population q) \<and> has_window_keys (gdp q)"
    by (simp add: Region_def keys_defualt_dict has_window_keys_dict_set)
  have m: "map_of [(''A'', ?A)] ''A'' = Some ?A" by simp
  have b: "map_of (gdp ?A) 2000 = Some (Some 5)"
    and z: "map_of (population ?A) 2000 = Some (Some 0)"
    by (simp_all add: Region_def map_of_dict_set)
  show ?thesis
    unfolding initialise_gdp_per_capita_def
    by (rule derive_pass_zero [where U = "\<lambda>s q. q\<lparr>gdp_per_capita := s\<rparr>",
          OF gdp_per_capita_of_shape w m _ _ b z]) simp_all
qed

section \<open>Year keys of the series\<close>

lemma all_series_iff: "all_series P regs \<longleftrightarrow> (\<forall>(k, r)\<in>set regs. series_ok P r)"
  by (simp add: all_series_def series_ok_def)

lemma series_ok_iff:
  "series_ok P r \<longleftrightarrow>
     P (population r) \<and> P (co2_emissions r) \<and> P (co2_emissions_per_capita r) \<and>
     P (gdp r) \<and> P (gdp_per_capita r) \<and> P (renewable_energy r) \<and>
     P (renewable_energy_per_capita r)"
  by (simp add: series_ok_def region_series_def)

lemma set_dict_set_subset: "set (dict_set d k v) \<subseteq> insert (k, v) (set d)"
  unfolding dict_set_def by (induction d) auto

lemma set_delete_subset: "set (AList.delete k d) \<subseteq> set d"
  by (auto simp: AList.delete_eq)

lemma all_series_dict_set:
  "all_series P regs \<Longrightarrow> series_ok P r \<Longrightarrow> all_series P (dict_set regs k r)"
  using set_dict_set_subset [of regs k r] by (auto simp: all_series_iff)

lemma all_series_delete: "all_series P regs \<Longrightarrow> all_series P (AList.delete k regs)"
  using set_delete_subset [of k regs] by (auto simp: all_series_iff)

lemma all_series_lookup:
  "all_series P regs \<Longrightarrow> map_of regs k = Some r \<Longrightarrow> series_ok P r"
  by (auto simp: all_series_iff dest: map_of_SomeD)

lemma all_series_Nil: "all_series P []"
  by (simp add: all_series_def)

lemma all_series_for_each:
  assumes "\<And>r r'. series_ok P r \<Longrightarrow> f r = Inr r' \<Longrightarrow> series_ok P r'"
  shows "all_series P regs \<Longrightarrow> for_each_region f regs = Inr regs' \<Longrightarrow> all_series P regs'"
proof (induction regs arbitrary: regs')
  case Nil
  then show ?case by (simp add: all_series_def)
next
  case (Cons a regs)
  obtain k r where a: "a = (k, r)" by (cases a)
  from Cons.prems(2) obtain r' rest' where
    f: "f r = Inr r'" and rest: "for_each_region f regs = Inr rest'"
    and regs': "regs' = (k, r') # rest'"
    by (auto simp: a split: sum.splits)
  from Cons.prems(1) have r: "series_ok P r" and tl: "all_series P regs"
    by (auto simp: all_series_iff a)
  from assms [OF r f] Cons.IH [OF tl rest] show ?case
    by (auto simp: all_series_iff regs')
qed

lemma all_series_map:
  assumes "\<And>k r. series_ok P r \<Longrightarrow> series_ok P (g k r)"
  shows "all_series P regs \<Longrightarrow> all_series P (map (\<lambda>(k, r). (k, g k r)) regs)"
  using assms by (auto simp: all_series_iff)

lemma co2_line_ok:
  assumes "window_closed P"
  shows "series_ok P r \<Longrightarrow> series_ok P (co2_line l r)"
  using assms by (simp add: co2_line_def series_ok_iff window_closed_def)

lemma gdp_line_ok:
  assumes "window_closed P"
  shows "series_ok P r \<Longrightarrow> series_ok P (gdp_line l r)"
  using assms by (simp add: gdp_line_def series_ok_iff window_closed_def)

lemma population_line_ok:
  assumes "window_closed P"
  shows "series_ok P r \<Longrightarrow> series_ok P (population_line l r)"
  using assms by (simp add: population_line_def series_ok_iff window_closed_def)

lemma fold_ok:
  assumes "\<And>l r. Q r \<Longrightarrow> Q (g l r)"
  shows "Q r \<Longrightarrow> Q (fold g ls r)"
  using assms by (induction ls arbitrary: r) auto

lemma initialise_co2_emissions_ok:
  assumes "window_closed P"
    and "all_series P regs"
  shows "all_series P (initialise_co2_emissions ds regs)"
  using assms(2) fold_ok [where Q = "series_ok P" and g = co2_line, OF co2_line_ok [OF assms(1)]]
  by (fastforce simp: all_series_iff initialise_co2_emissions_def split: option.splits)

lemma initialise_gdp_ok:
  assumes "window_closed P"
    and "all_series P regs"
  shows "all_series P (initialise_gdp ds regs)"
  using assms(2) fold_ok [where Q = "series_ok P" and g = gdp_line, OF gdp_line_ok [OF assms(1)]]
  by (fastforce simp: all_series_iff initialise_gdp_def split: option.splits)

lemma initialise_population_ok:
  assumes "window_closed P"
    and "all_series P regs"
  shows "all_series P (initialise_population ds regs)"
  using assms(2)
    fold_ok [where Q = "series_ok P" and g = population_line,
      OF population_line_ok [OF assms(1)]]
  by (fastforce simp: all_series_iff initialise_population_def split: option.splits)

lemma energy_cells_ok:
  assumes cl: "window_closed P"
  shows "P s \<Longrightarrow> \<forall>i\<in>set idx. 3 \<le> i \<and> i < 20 \<Longrightarrow>
         energy_cells float row idx s = Inr s' \<Longrightarrow> P s'"
proof (induction idx arbitrary: s)
  case Nil
  then show ?case by simp
next
  case (Cons i idx)
  from Cons.prems(2) have i: "1951 \<le> 1997 + int i" "1997 + int i \<le> 2016"
    and rest: "\<forall>i\<in>set idx. 3 \<le> i \<and> i < 20"
    by auto
  from cl Cons.prems(1) i have step: "P (dict_set s (1997 + int i) v)" for v
    unfolding window_closed_def by blast
  from Cons.prems(3) Cons.IH [OF Cons.prems(1) rest] Cons.IH [OF step rest]
  show ?case
    by (auto simp: Let_def split: sum.splits if_splits option.splits)
qed

lemma energy_row_ok:
  assumes cl: "window_closed P"
    and regs: "all_series P regs" and run: "energy_row float row regs = Inr regs'"
  shows "all_series P regs'"
proof (cases "list_get row 1")
  case (Inl e)
  with run show ?thesis by (simp add: energy_row_def)
next
  case (Inr region0)
  show ?thesis
  proof (cases "map_of regs (energy_alias region0)")
    case None
    with run Inr regs show ?thesis by (simp add: energy_row_def)
  next
    case (Some r)
    with run Inr obtain s where
      cells: "energy_cells float row [3..<20] (renewable_energy r) = Inr s"
      and regs': "regs' = dict_set regs (energy_alias region0) (r\<lparr>renewable_energy := s\<rparr>)"
      by (auto simp: energy_row_def split: sum.splits)
    from all_series_lookup [OF regs Some] have r: "series_ok P r" .
    then have "P (renewable_energy r)" by (simp add: series_ok_iff)
    from energy_cells_ok [OF cl this _ cells] have "P s" by simp
    with r have "series_ok P (r\<lparr>renewable_energy := s\<rparr>)" by (simp add: series_ok_iff)
    from all_series_dict_set [OF regs this] show ?thesis by (simp add: regs')
  qed
qed

lemma energy_production_ok:
  assumes cl: "window_closed P"
  shows "all_series P regs \<Longrightarrow> energy_production float rows regs = Inr regs' \<Longrightarrow>
         all_series P regs'"
proof (induction rows arbitrary: regs)
  case Nil
  then show ?case by simp
next
  case (Cons row rows)
  from Cons.prems(2) obtain regs1 where
    one: "energy_row float row regs = Inr regs1"
    and rest: "energy_production float rows regs1 = Inr regs'"
    by (auto split: sum.splits)
  from Cons.IH [OF energy_row_ok [OF cl Cons.prems(1) one] rest] show ?case .
qed

lemma window_closed_has_window_keys: "window_closed has_window_keys"
  unfolding window_closed_def by (blast intro: has_window_keys_dict_set)

lemma window_closed_keys_in_window: "window_closed keys_in_window"
  unfolding window_closed_def by (blast intro: keys_in_window_dict_set)

lemma keys_in_window_defualt_dict: "keys_in_window defualt_dict"
  by (rule has_window_keys_in_window [OF keys_defualt_dict])

lemma for_each_preserves:
  assumes "\<forall>r r'. series_ok P r \<longrightarrow> f r = Inr r' \<longrightarrow> series_ok P r'"
  shows "\<forall>regs regs'. all_series P regs \<longrightarrow> for_each_region f regs = Inr regs' \<longrightarrow>
           all_series P regs'"
proof (intro allI impI)
  fix regs regs'
  assume a: "all_series P regs" and run: "for_each_region f regs = Inr regs'"
  have step: "series_ok P r'" if "series_ok P r" "f r = Inr r'" for r r'
    using assms that by blast
  show "all_series P regs'"
    by (rule all_series_for_each [where P = P and f = f and regs = regs]) (fact step a run)+
qed

lemma per_capita_of_ok:
  assumes pc: "\<forall>pop base out out'. P pop \<longrightarrow> P base \<longrightarrow> P out \<longrightarrow>
                 per_capita pop base out = Inr out' \<longrightarrow> P out'"
    and r: "series_ok P r"
  shows "gdp_per_capita_of r = Inr r' \<Longrightarrow> series_ok P r'"
    and "co2_emissions_per_capita_of r = Inr r' \<Longrightarrow> series_ok P r'"
    and "renewables_per_capita_of r = Inr r' \<Longrightarrow> series_ok P r'"
proof -
  note r' = r [unfolded series_ok_iff]
  show "series_ok P r'" if "gdp_per_capita_of r = Inr r'"
  proof -
    from that obtain s where s: "per_capita (population r) (gdp r) (gdp_per_capita r) = Inr s"
      and eq: "r' = r\<lparr>gdp_per_capita := s\<rparr>"
      by (auto simp: gdp_per_capita_of_def split: sum.splits)
    from pc r' s have "P s" by blast
    with r' show ?thesis by (simp add: eq series_ok_iff)
  qed
  show "series_ok P r'" if "co2_emissions_per_capita_of r = Inr r'"
  proof -
    from that obtain s where
      s: "per_capita (population r) (co2_emissions r) (co2_emissions_per_capita r) = Inr s"
      and eq: "r' = r\<lparr>co2_emissions_per_capita := s\<rparr>"
      by (auto simp: co2_emissions_per_capita_of_def split: sum.splits)
    from pc r' s have "P s" by blast
    with r' show ?thesis by (simp add: eq series_ok_iff)
  qed
  show "series_ok P r'" if "renewables_per_capita_of r = Inr r'"
  proof -
    from that obtain s where
      s: "per_capita (population r) (renewable_energy r) (renewable_energy_per_capita r) = Inr s"
      and eq: "r' = r\<lparr>renewable_energy_per_capita := s\<rparr>"
      by (auto simp: renewables_per_capita_of_def split: sum.splits)
    from pc r' s have "P s" by blast
    with r' show ?thesis by (simp add: eq series_ok_iff)
  qed
qed

lemma per_capita_passes_preserve:
  assumes pc: "\<forall>pop base out out'. P pop \<longrightarrow> P base \<longrightarrow> P out \<longrightarrow>
                 per_capita pop base out = Inr out' \<longrightarrow> P out'"
  shows "preserves P initialise_gdp_per_capita"
    and "preserves P initialise_co2_emissions_per_capita"
    and "preserves P initialise_renewables_per_capita"
proof -
  have g: "\<forall>r r'. series_ok P r \<longrightarrow> gdp_per_capita_of r = Inr r' \<longrightarrow> series_ok P r'"
    using per_capita_of_ok(1) [where P = P, OF pc] by blast
  have c: "\<forall>r r'. series_ok P r \<longrightarrow> co2_emissions_per_capita_of r = Inr r' \<longrightarrow> series_ok P r'"
    using per_capita_of_ok(2) [where P = P, OF pc] by blast
  have e: "\<forall>r r'. series_ok P r \<longrightarrow> renewables_per_capita_of r = Inr r' \<longrightarrow> series_ok P r'"
    using per_capita_of_ok(3) [where P = P, OF pc] by blast
  show "preserves P initialise_gdp_per_capita"
    unfolding preserves_def initialise_gdp_per_capita_def by (rule for_each_preserves [OF g])
  show "preserves P initialise_co2_emissions_per_capita"
    unfolding preserves_def initialise_co2_emissions_per_capita_def
    by (rule for_each_preserves [OF c])
  show "preserves P initialise_renewables_per_capita"
    unfolding preserves_def initialise_renewables_per_capita_def
    by (rule for_each_preserves [OF e])
qed

lemma region_score_of_ok: "series_ok P r \<Longrightarrow> region_score_of r = Inr r' \<Longrightarrow> series_ok P r'"
  by (auto simp: region_score_of_def series_ok_iff split: sum.splits option.splits if_splits)

lemma initialise_region_score_preserves: "preserves P initialise_region_score"
  unfolding preserves_def initialise_region_score_def
  by (rule for_each_preserves) (blast intro: region_score_of_ok)

lemma carbon_tax_loop_ok:
  "all_series P regs \<Longrightarrow> carbon_tax_loop cs regs = Inr regs' \<Longrightarrow> all_series P regs'"
proof (induction cs arbitrary: regs)
  case Nil
  then show ?case by simp
next
  case (Cons c cs)
  from Cons.prems(2) obtain r where r: "map_of regs c = Some r"
    and rest: "carbon_tax_loop cs (dict_set regs c (r\<lparr>has_carbon_tax := True\<rparr>)) = Inr regs'"
    by (auto simp: dict_get_def split: option.splits sum.splits)
  from all_series_lookup [OF Cons.prems(1) r]
  have "series_ok P (r\<lparr>has_carbon_tax := True\<rparr>)" by (simp add: series_ok_iff)
  from Cons.IH [OF all_series_dict_set [OF Cons.prems(1) this] rest] show ?case .
qed

lemma initialise_carbon_tax_preserves: "preserves P initialise_carbon_tax"
  unfolding preserves_def initialise_carbon_tax_def by (blast intro: carbon_tax_loop_ok)

lemma damage_row_ok:
  assumes "all_series P regs" and "damage_row float row regs = Inr regs'"
  shows "all_series P regs'"
proof -
  have upd: "all_series P (dict_set regs k (r\<lparr>projected_damage := Some v\<rparr>))"
    if "map_of regs k' = Some r" for k k' r v
  proof -
    from all_series_lookup [OF assms(1) that]
    have "series_ok P (r\<lparr>projected_damage := Some v\<rparr>)" by (simp add: series_ok_iff)
    from all_series_dict_set [OF assms(1) this] show ?thesis .
  qed
  from assms show ?thesis
    by (auto simp: damage_row_def dict_get_def upd
        split: list.splits option.splits sum.splits if_splits)
qed

lemma initialise_projected_damage_ok:
  "all_series P regs \<Longrightarrow> initialise_projected_damage float rows regs = Inr regs' \<Longrightarrow>
   all_series P regs'"
proof (induction rows arbitrary: regs)
  case Nil
  then show ?case by simp
next
  case (Cons row rows)
  from Cons.prems(2) obtain regs1 where
    one: "damage_row float row regs = Inr regs1"
    and rest: "initialise_projected_damage float rows regs1 = Inr regs'"
    by (auto split: sum.splits)
  from Cons.IH [OF damage_row_ok [OF Cons.prems(1) one] rest] show ?case .
qed

lemma series_ok_Region: "P defualt_dict \<Longrightarrow> series_ok P (Region n c)"
  by (simp add: series_ok_iff Region_def)

lemma fold_Region_ok:
  "P defualt_dict \<Longrightarrow> all_series P acc \<Longrightarrow>
   all_series P (fold (\<lambda>(n, c) regs. dict_set regs n (Region n c)) rows acc)"
proof (induction rows arbitrary: acc)
  case Nil
  then show ?case by simp
next
  case (Cons a rows)
  obtain n c where a: "a = (n, c)" by (cases a)
  from all_series_dict_set [OF Cons.prems(2) series_ok_Region [of P, OF Cons.prems(1)]]
  have "all_series P (dict_set acc n (Region n c))" .
  from Cons.IH [OF Cons.prems(1) this] show ?case by (simp add: a)
qed

lemma rename_region_ok:
  assumes "all_series P regs" and "rename_region old new regs = Inr regs'"
  shows "all_series P regs'"
proof -
  from assms(2) obtain r where r: "map_of regs old = Some r"
    and eq: "regs' = dict_set (AList.delete old regs) new r"
    by (auto simp: rename_region_def dict_get_def split: option.splits)
  from all_series_dict_set [OF all_series_delete [OF assms(1)] all_series_lookup [OF assms(1) r]]
  show ?thesis by (simp add: eq)
qed

lemma initialise_regions_ok:
  assumes "P defualt_dict" and "initialise_regions rows = Inr regs"
  shows "all_series P regs"
proof -
  let ?start = "fold (\<lambda>(n, c) regs. dict_set regs n (Region n c)) rows []"
  have s: "all_series P ?start"
    by (rule fold_Region_ok [of P, OF assms(1) all_series_Nil])
  from assms(2) obtain regs1 where
    one: "rename_region ''United Kingdom of Great Britain & Northern Ireland''
            ''United Kingdom'' ?start = Inr regs1"
    and two: "rename_region ''United States of America'' ''United States'' regs1 = Inr regs"
    by (auto simp: initialise_regions_def Let_def split: sum.splits)
  from rename_region_ok [OF rename_region_ok [OF s one] two] show ?thesis .
qed

lemma merge_passes_preserve:
  assumes "window_closed P"
  shows "preserves P (\<lambda>regs. Inr (initialise_co2_emissions ds regs))"
    and "preserves P (\<lambda>regs. Inr (initialise_gdp ds regs))"
    and "preserves P (\<lambda>regs. Inr (initialise_population ds regs))"
    and "preserves P (energy_production float rows)"
  unfolding preserves_def
  using initialise_co2_emissions_ok [OF assms] initialise_gdp_ok [OF assms]
    initialise_population_ok [OF assms] energy_production_ok [OF assms]
  by blast+

lemma initialise_projected_damage_preserves:
  "preserves P (initialise_projected_damage float rows)"
  unfolding preserves_def by (blast intro: initialise_projected_damage_ok)

lemma pc_has_window_keys:
  "\<forall>pop base out out'. has_window_keys pop \<longrightarrow> has_window_keys base \<longrightarrow>
     has_window_keys out \<longrightarrow> per_capita pop base out = Inr out' \<longrightarrow> has_window_keys out'"
  by (blast intro: per_capita_has_window_keys)

lemma pc_keys_in_window:
  "\<forall>pop base out out'. keys_in_window pop \<longrightarrow> keys_in_window base \<longrightarrow>
     keys_in_window out \<longrightarrow> per_capita pop base out = Inr out' \<longrightarrow> keys_in_window out'"
  by (blast intro: per_capita_keys_in_window)

lemma window_read_defined:
  assumes "all_series has_window_keys regs" and "(k, r) \<in> set regs"
    and "s \<in> set (region_series r)" and "1951 \<le> y" and "y \<le> 2016"
  shows "\<exists>v. dict_get s y = Inr v"
proof -
  from assms(1-3) have "has_window_keys s" by (auto simp: all_series_def)
  from has_window_keys_map_of [OF this, of y] assms(4,5) show ?thesis
    by (auto simp: dict_get_def split: option.splits)
qed

lemma dict_get_defualt_dict: "1951 \<le> y \<Longrightarrow> y \<le> 2016 \<Longrightarrow> dict_get defualt_dict y = Inr None"
  by (simp add: dict_get_def map_of_defualt_dict)

section \<open>The window keys through the lifecycle\<close>

text \<open>
  Claim C10. The default series has an entry \<^verbatim>\<open>None\<close> for every year from 1951 to 2016, and
  the registry built by \<^verbatim>\<open>initialise_regions\<close> consists of regions whose seven series are
  that default series, so each has exactly the window years as keys. Every later pass (the
  three merge passes over the data set, \<^verbatim>\<open>energy_production\<close>, the three per-capita
  passes, the carbon-tax, projected-damage and region-score passes) keeps that property
  when it completes: it writes only at keys the series already has. In a registry with the
  property, reading any of the seven series of any region at a year of the window is
  defined: it returns a value and does not fail with \<^verbatim>\<open>KeyError\<close>.
\<close>

theorem window_keys_always_present:
  "(\<forall>y0. 1951 \<le> y0 \<and> y0 \<le> 2016 \<longrightarrow> dict_get defualt_dict y0 = Inr None) \<and>
   (initialise_regions names = Inr regs0 \<longrightarrow>
      all_series (\<lambda>s. s = defualt_dict) regs0 \<and> all_series has_window_keys regs0) \<and>
   preserves has_window_keys (\<lambda>regs. Inr (initialise_co2_emissions ds regs)) \<and>
   preserves has_window_keys (\<lambda>regs. Inr (initialise_gdp ds regs)) \<and>
   preserves has_window_keys (\<lambda>regs. Inr (initialise_population ds regs)) \<and>
   preserves has_window_keys (energy_production float rows) \<and>
   preserves has_window_keys initialise_gdp_per_capita \<and>
   preserves has_window_keys initialise_co2_emissions_per_capita \<and>
   preserves has_window_keys initialise_renewables_per_capita \<and>
   preserves has_window_keys initialise_carbon_tax \<and>
   preserves has_window_keys (initialise_projected_damage floatd drows) \<and>
   preserves has_window_keys initialise_region_score \<and>
   (all_series has_window_keys regs \<and> (k, r) \<in> set regs \<and> s \<in> set (region_series r) \<and>
    1951 \<le> y \<and> y \<le> 2016 \<longrightarrow> (\<exists>v. dict_get s y = Inr v))"
proof (intro conjI impI allI)
  fix y0 :: int assume "1951 \<le> y0 \<and> y0 \<le> 2016"
  then show "dict_get defualt_dict y0 = Inr None" by (simp add: dict_get_defualt_dict)
next
  assume run: "initialise_regions names = Inr regs0"
  show "all_series (\<lambda>s. s = defualt_dict) regs0"
    by (rule initialise_regions_ok [where P = "\<lambda>s. s = defualt_dict", OF refl run])
  show "all_series has_window_keys regs0"
    by (rule initialise_regions_ok [where P = has_window_keys, OF keys_defualt_dict run])
next
  assume "all_series has_window_keys regs \<and> (k, r) \<in> set regs \<and> s \<in> set (region_series r) \<and>
    1951 \<le> y \<and> y \<le> 2016"
  then show "\<exists>v. dict_get s y = Inr v" by (blast intro: window_read_defined)
qed (rule merge_passes_preserve [OF window_closed_has_window_keys]
       per_capita_passes_preserve [OF pc_has_window_keys]
       initialise_carbon_tax_preserves initialise_projected_damage_preserves
       initialise_region_score_preserves)+


text \<open>
  C10 on a run: the master list of the two renamed regions gives a registry of default
  regions; the population of a fresh region reads \<^verbatim>\<open>None\<close> at 2016; after the emissions
  pass (with one record of 2000 and one of 1900) and after \<^verbatim>\<open>energy_production\<close> (one
  row for \<^verbatim>\<open>USA\<close>) the written series still reads a value at 1951.
\<close>

theorem window_keys_always_present_witness:
  "initialise_regions
     [(''United Kingdom of Great Britain & Northern Ireland'', ''Europe''),
      (''United States of America'', ''North America'')] =
   Inr [(''United Kingdom'', Region ''United Kingdom of Great Britain & Northern Ireland'' ''Europe''),
        (''United States'', Region ''United States of America'' ''North America'')] \<and>
   dict_get (population (Region ''United States of America'' ''North America'')) 2016 = Inr None \<and>
   (\<exists>r v. map_of
            (initialise_co2_emissions
               (\<lambda>rn. if rn = ''United States''
                     then Some [\<lparr>l_year = 2000, l_co2 = Some 5, l_gdp = None, l_population = None\<rparr>,
                                \<lparr>l_year = 1900, l_co2 = Some 9, l_gdp = None, l_population = None\<rparr>]
                     else None)
               [(''United Kingdom'',
                 Region ''United Kingdom of Great Britain & Northern Ireland'' ''Europe''),
                (''United States'', Region ''United States of America'' ''North America'')])
            ''United States'' = Some r \<and>
          dict_get (co2_emissions r) 1951 = Inr v) \<and>
   (\<exists>regs' r v.
      energy_production (\<lambda>s. if s = ''5'' then Some 5 else None)
        [[''0'', ''USA'', ''Wind'', ''5'', '''', '''', '''', '''', '''', '''', '''', '''', '''',
          '''', '''', '''', '''', '''', '''', '''']]
        [(''United Kingdom'',
          Region ''United Kingdom of Great Britain & Northern Ireland'' ''Europe''),
         (''United States'', Region ''United States of America'' ''North America'')] = Inr regs' \<and>
      map_of regs' ''United States'' = Some r \<and>
      dict_get (renewable_energy r) 1951 = Inr v)"
proof -
  let ?names = "[(''United Kingdom of Great Britain & Northern Ireland'', ''Europe''),
      (''United States of America'', ''North America'')]"
  let ?uk = "Region ''United Kingdom of Great Britain & Northern Ireland'' ''Europe''"
  let ?us = "Region ''United States of America'' ''North America''"
  let ?regs0 = "[(''United Kingdom'', ?uk), (''United States'', ?us)]"
  let ?ds = "\<lambda>rn. if rn = ''United States''
                     then Some [\<lparr>l_year = 2000, l_co2 = Some 5, l_gdp = None, l_population = None\<rparr>,
                                \<lparr>l_year = 1900, l_co2 = Some (9::real), l_gdp = None,
                                  l_population = None\<rparr>]
                     else None"
  let ?float = "\<lambda>s. if s = ''5'' then Some (5::real) else None"
  let ?rows = "[[''0'', ''USA'', ''Wind'', ''5'', '''', '''', '''', '''', '''', '''', '''', '''',
          '''', '''', '''', '''', '''', '''', '''', '''']]"
  let ?us1 = "?us\<lparr>co2_emissions := dict_set defualt_dict 2000 (Some 5)\<rparr>"
  let ?us2 = "?us\<lparr>renewable_energy := dict_set defualt_dict 2000 (Some 5)\<rparr>"
  have run0: "initialise_regions ?names = Inr ?regs0"
    by (simp add: initialise_regions_def rename_region_def dict_get_def dict_set_def)
  have m1: "map_of (initialise_co2_emissions ?ds ?regs0) ''United States'' = Some ?us1"
    by (simp add: initialise_co2_emissions_def co2_line_def Region_def)
  have run2: "energy_production ?float ?rows ?regs0 =
                Inr [(''United Kingdom'', ?uk), (''United States'', ?us2)]"
    by (simp add: energy_row_def energy_alias_def list_get_def dict_set_def Region_def)
  note T = window_keys_always_present
    [where names = ?names and ?regs0.0 = ?regs0 and ds = ?ds and float = ?float and rows = ?rows]
  have w0: "all_series has_window_keys ?regs0" and d0: "all_series (\<lambda>s. s = defualt_dict) ?regs0"
    using T [THEN conjunct2, THEN conjunct1] run0 by blast+
  have w1: "all_series has_window_keys (initialise_co2_emissions ?ds ?regs0)"
    using T [THEN conjunct2, THEN conjunct2, THEN conjunct1] w0
    unfolding preserves_def by blast
  have w2: "all_series has_window_keys [(''United Kingdom'', ?uk), (''United States'', ?us2)]"
    using T [THEN conjunct2, THEN conjunct2, THEN conjunct2, THEN conjunct2, THEN conjunct2,
        THEN conjunct1] w0 run2
    unfolding preserves_def by blast
  have p: "dict_get (population ?us) 2016 = Inr None"
    using T [THEN conjunct1] by (simp add: Region_def)
  have r1: "\<exists>v. dict_get (co2_emissions ?us1) 1951 = Inr v"
    by (rule window_keys_always_present
          [where regs = "initialise_co2_emissions ?ds ?regs0" and k = "''United States''"
             and r = ?us1 and s = "co2_emissions ?us1" and y = 1951,
           THEN conjunct2, THEN conjunct2, THEN conjunct2, THEN conjunct2, THEN conjunct2,
           THEN conjunct2, THEN conjunct2, THEN conjunct2, THEN conjunct2, THEN conjunct2,
           THEN conjunct2, THEN conjunct2, rule_format])
       (use w1 map_of_SomeD [OF m1] in \<open>simp add: region_series_def\<close>)
  have r2: "\<exists>v. dict_get (renewable_energy ?us2) 1951 = Inr v"
    by (rule window_keys_always_present
          [where regs = "[(''United Kingdom'', ?uk), (''United States'', ?us2)]"
             and k = "''United States''"
             and r = ?us2 and s = "renewable_energy ?us2" and y = 1951,
           THEN conjunct2, THEN conjunct2, THEN conjunct2, THEN conjunct2, THEN conjunct2,
           THEN conjunct2, THEN conjunct2, THEN conjunct2, THEN conjunct2, THEN conjunct2,
           THEN conjunct2, THEN conjunct2, rule_format])
       (use w2 in \<open>simp add: region_series_def\<close>)
  from r1 m1 have c1: "\<exists>r v. map_of (initialise_co2_emissions ?ds ?regs0) ''United States'' = Some r \<and>
          dict_get (co2_emissions r) 1951 = Inr v" by blast
  from r2 run2 have c2: "\<exists>regs' r v. energy_production ?float ?rows ?regs0 = Inr regs' \<and>
      map_of regs' ''United States'' = Some r \<and> dict_get (renewable_energy r) 1951 = Inr v"
    by (intro exI [of _ "[(''United Kingdom'', ?uk), (''United States'', ?us2)]"]
          exI [of _ ?us2]) simp
  from run0 p c1 c2 show ?thesis by (intro conjI)
qed

text \<open>
  Claim C8. In the registry built by \<^verbatim>\<open>initialise_regions\<close> every key of every series lies
  in the window from 1951 to 2016, and each merge pass (emissions, gdp, population,
  \<^verbatim>\<open>energy_production\<close>) and each per-capita pass keeps it so. A record of the data set
  whose year lies outside the window is discarded: each of the three passes over the data
  set gives the same registry as on the data set with those records removed
  (\<open>in_window_only\<close>).
\<close>

theorem stored_years_in_window:
  "(initialise_regions names = Inr regs0 \<longrightarrow> all_series keys_in_window regs0) \<and>
   preserves keys_in_window (\<lambda>regs. Inr (initialise_co2_emissions ds regs)) \<and>
   preserves keys_in_window (\<lambda>regs. Inr (initialise_gdp ds regs)) \<and>
   preserves keys_in_window (\<lambda>regs. Inr (initialise_population ds regs)) \<and>
   preserves keys_in_window (energy_production float rows) \<and>
   preserves keys_in_window initialise_gdp_per_capita \<and>
   preserves keys_in_window initialise_co2_emissions_per_capita \<and>
   preserves keys_in_window initialise_renewables_per_capita \<and>
   initialise_co2_emissions ds regs = initialise_co2_emissions (in_window_only ds) regs \<and>
   initialise_gdp ds regs = initialise_gdp (in_window_only ds) regs \<and>
   initialise_population ds regs = initialise_population (in_window_only ds) regs"
proof (intro conjI impI)
  assume run: "initialise_regions names = Inr regs0"
  show "all_series keys_in_window regs0"
    by (rule initialise_regions_ok [where P = keys_in_window,
          OF keys_in_window_defualt_dict run])
next
  have c: "fold co2_line (filter (\<lambda>l. 1951 \<le> l_year l \<and> l_year l \<le> 2016) data) q =
           fold co2_line data q" for data q
    by (induction data arbitrary: q) (simp_all add: co2_line_def)
  show "initialise_co2_emissions ds regs = initialise_co2_emissions (in_window_only ds) regs"
    by (auto simp: initialise_co2_emissions_def in_window_only_def c split: option.splits)
  have g: "fold gdp_line (filter (\<lambda>l. 1951 \<le> l_year l \<and> l_year l \<le> 2016) data) q =
           fold gdp_line data q" for data q
    by (induction data arbitrary: q) (simp_all add: gdp_line_def)
  show "initialise_gdp ds regs = initialise_gdp (in_window_only ds) regs"
    by (auto simp: initialise_gdp_def in_window_only_def g split: option.splits)
  have p: "fold population_line (filter (\<lambda>l. 1951 \<le> l_year l \<and> l_year l \<le> 2016) data) q =
           fold population_line data q" for data q
    by (induction data arbitrary: q) (simp_all add: population_line_def)
  show "initialise_population ds regs = initialise_population (in_window_only ds) regs"
    by (auto simp: initialise_population_def in_window_only_def p split: option.splits)
qed (rule merge_passes_preserve [OF window_closed_keys_in_window]
       per_capita_passes_preserve [OF pc_keys_in_window])+


text \<open>
  C8 on a run: after the emissions pass over a record of 2000 and a record of 1900, the
  emissions series of the region has the value of 2000 and no key 1900, and the pass gives
  the same registry without the record of 1900; after \<^verbatim>\<open>energy_production\<close> the
  renewable-energy series has no key 2017.
\<close>

theorem stored_years_in_window_witness:
  "initialise_regions
     [(''United Kingdom of Great Britain & Northern Ireland'', ''Europe''),
      (''United States of America'', ''North America'')] =
   Inr [(''United Kingdom'', Region ''United Kingdom of Great Britain & Northern Ireland'' ''Europe''),
        (''United States'', Region ''United States of America'' ''North America'')] \<and>
   (\<exists>r. map_of
          (initialise_co2_emissions
             (\<lambda>rn. if rn = ''United States''
                   then Some [\<lparr>l_year = 2000, l_co2 = Some 5, l_gdp = None, l_population = None\<rparr>,
                              \<lparr>l_year = 1900, l_co2 = Some 9, l_gdp = None, l_population = None\<rparr>]
                   else None)
             [(''United Kingdom'',
               Region ''United Kingdom of Great Britain & Northern Ireland'' ''Europe''),
              (''United States'', Region ''United States of America'' ''North America'')])
          ''United States'' = Some r \<and>
        map_of (co2_emissions r) 1900 = None \<and>
        map_of (co2_emissions r) 2000 = Some (Some 5)) \<and>
   initialise_co2_emissions
     (\<lambda>rn. if rn = ''United States''
           then Some [\<lparr>l_year = 2000, l_co2 = Some 5, l_gdp = None, l_population = None\<rparr>,
                      \<lparr>l_year = 1900, l_co2 = Some 9, l_gdp = None, l_population = None\<rparr>]
           else None)
     [(''United Kingdom'', Region ''United Kingdom of Great Britain & Northern Ireland'' ''Europe''),
      (''United States'', Region ''United States of America'' ''North America'')] =
   initialise_co2_emissions
     (in_window_only
        (\<lambda>rn. if rn = ''United States''
              then Some [\<lparr>l_year = 2000, l_co2 = Some 5, l_gdp = None, l_population = None\<rparr>,
                         \<lparr>l_year = 1900, l_co2 = Some 9, l_gdp = None, l_population = None\<rparr>]
              else None))
     [(''United Kingdom'', Region ''United Kingdom of Great Britain & Northern Ireland'' ''Europe''),
      (''United States'', Region ''United States of America'' ''North America'')] \<and>
   (\<exists>regs' r.
      energy_production (\<lambda>s. if s = ''5'' then Some 5 else None)
        [[''0'', ''USA'', ''Wind'', ''5'', '''', '''', '''', '''', '''', '''', '''', '''', '''',
          '''', '''', '''', '''', '''', '''', '''']]
        [(''United Kingdom'',
          Region ''United Kingdom of Great Britain & Northern Ireland'' ''Europe''),
         (''United States'', Region ''United States of America'' ''North America'')] = Inr regs' \<and>
      map_of regs' ''United States'' = Some r \<and>
      map_of (renewable_energy r) 2017 = None)"
proof -
  let ?names = "[(''United Kingdom of Great Britain & Northern Ireland'', ''Europe''),
      (''United States of America'', ''North America'')]"
  let ?uk = "Region ''United Kingdom of Great Britain & Northern Ireland'' ''Europe''"
  let ?us = "Region ''United States of America'' ''North America''"
  let ?regs0 = "[(''United Kingdom'', ?uk), (''United States'', ?us)]"
  let ?ds = "\<lambda>rn. if rn = ''United States''
                     then Some [\<lparr>l_year = 2000, l_co2 = Some 5, l_gdp = None, l_population = None\<rparr>,
                                \<lparr>l_year = 1900, l_co2 = Some (9::real), l_gdp = None,
                                  l_population = None\<rparr>]
                     else None"
  let ?float = "\<lambda>s. if s = ''5'' then Some (5::real) else None"
  let ?rows = "[[''0'', ''USA'', ''Wind'', ''5'', '''', '''', '''', '''', '''', '''', '''', '''',
          '''', '''', '''', '''', '''', '''', '''', '''']]"
  let ?us1 = "?us\<lparr>co2_emissions := dict_set defualt_dict 2000 (Some 5)\<rparr>"
  let ?us2 = "?us\<lparr>renewable_energy := dict_set defualt_dict 2000 (Some 5)\<rparr>"
  let ?regs2 = "[(''United Kingdom'', ?uk), (''United States'', ?us2)]"
  have run0: "initialise_regions ?names = Inr ?regs0"
    by (simp add: initialise_regions_def rename_region_def dict_get_def dict_set_def)
  have m1: "map_of (initialise_co2_emissions ?ds ?regs0) ''United States'' = Some ?us1"
    by (simp add: initialise_co2_emissions_def co2_line_def Region_def)
  have run2: "energy_production ?float ?rows ?regs0 = Inr ?regs2"
    by (simp add: energy_row_def energy_alias_def list_get_def dict_set_def Region_def)
  note T = stored_years_in_window
    [where names = ?names and ?regs0.0 = ?regs0 and ds = ?ds and float = ?float and rows = ?rows
       and regs = ?regs0]
  have w0: "all_series keys_in_window ?regs0"
    using T [THEN conjunct1] run0 by blast
  have w1: "all_series keys_in_window (initialise_co2_emissions ?ds ?regs0)"
    using T [THEN conjunct2, THEN conjunct1] w0 unfolding preserves_def by blast
  have w2: "all_series keys_in_window ?regs2"
    using T [THEN conjunct2, THEN conjunct2, THEN conjunct2, THEN conjunct2, THEN conjunct1]
      w0 run2
    unfolding preserves_def by blast
  have eq: "initialise_co2_emissions ?ds ?regs0 =
            initialise_co2_emissions (in_window_only ?ds) ?regs0"
    by (rule T [THEN conjunct2, THEN conjunct2, THEN conjunct2, THEN conjunct2, THEN conjunct2,
          THEN conjunct2, THEN conjunct2, THEN conjunct2, THEN conjunct1])
  from all_series_lookup [OF w1 m1] have k1: "keys_in_window (co2_emissions ?us1)"
    by (simp add: series_ok_iff)
  have n1: "map_of (co2_emissions ?us1) 1900 = None"
  proof (rule ccontr)
    assume "map_of (co2_emissions ?us1) 1900 \<noteq> None"
    then have "(1900::int) \<in> fst ` set (co2_emissions ?us1)"
      by (simp only: map_of_eq_None_iff not_not)
    with k1 have "(1951::int) \<le> 1900" unfolding keys_in_window_def by blast
    then show False by simp
  qed
  have v1: "map_of (co2_emissions ?us1) 2000 = Some (Some 5)"
    by (simp add: map_of_dict_set)
  have m2: "map_of ?regs2 ''United States'' = Some ?us2" by simp
  from all_series_lookup [OF w2 m2] have k2: "keys_in_window (renewable_energy ?us2)"
    by (simp add: series_ok_iff)
  have n2: "map_of (renewable_energy ?us2) 2017 = None"
  proof (rule ccontr)
    assume "map_of (renewable_energy ?us2) 2017 \<noteq> None"
    then have "(2017::int) \<in> fst ` set (renewable_energy ?us2)"
      by (simp only: map_of_eq_None_iff not_not)
    with k2 have "(2017::int) \<le> 2016" unfolding keys_in_window_def by blast
    then show False by simp
  qed
  from m1 n1 v1 have c1: "\<exists>r. map_of (initialise_co2_emissions ?ds ?regs0) ''United States'' = Some r \<and>
        map_of (co2_emissions r) 1900 = None \<and> map_of (co2_emissions r) 2000 = Some (Some 5)"
    by blast
  from run2 m2 n2 have c2: "\<exists>regs' r. energy_production ?float ?rows ?regs0 = Inr regs' \<and>
      map_of regs' ''United States'' = Some r \<and> map_of (renewable_energy r) 2017 = None"
    by blast
  from run0 c1 eq c2 show ?thesis by (intro conjI)
qed

section \<open>Alias resolution\<close>
















section \<open>The two leaderboards\<close>

lemma insert_desc_Nil: "insert_desc x [] = [x]"
  by (simp add: insert_desc_def)

lemma insert_desc_Cons:
  "insert_desc x (y # ys) = (if snd y < snd x then x # y # ys else y # insert_desc x ys)"
  by (simp add: insert_desc_def)

lemma length_insert_desc: "length (insert_desc x xs) = Suc (length xs)"
  by (induction xs) (simp_all add: insert_desc_Nil insert_desc_Cons)

lemma leader_scan_from:
  assumes "length top10 = 10" and "j \<le> 10" and "\<forall>i<j. \<not> snd (top10 ! i) < score"
  shows "leader_scan region score [j..<10] top10 =
         Inr (take 10 (insert_desc (Some region, score) top10))"
  using assms(2,3)
proof (induction j rule: inc_induct)
  case base
  have "\<forall>e\<in>set top10. \<not> snd e < score"
  proof
    fix e assume "e \<in> set top10"
    then obtain i where "i < length top10" and "top10 ! i = e"
      by (auto simp: in_set_conv_nth)
    with base assms(1) show "\<not> snd e < score" by auto
  qed
  then have "insert_desc (Some region, score) top10 = top10 @ [(Some region, score)]"
    by (simp add: insert_desc_def)
  then show ?case using assms(1) by simp
next
  case (step j)
  have idx: "[j..<10] = j # [Suc j..<10]" using step.hyps by (simp add: upt_conv_Cons)
  have g: "list_get top10 j = Inr (top10 ! j)"
    using step.hyps assms(1) by (simp add: list_get_def)
  show ?case
  proof (cases "snd (top10 ! j) < score")
    case True
    have tw: "takeWhile (\<lambda>e. \<not> snd e < score) top10 = take j top10"
      using step.prems True by (intro takeWhile_eq_take_P_nth) auto
    have dw: "dropWhile (\<lambda>e. \<not> snd e < score) top10 = drop j top10"
      using assms(1) step.hyps by (simp add: dropWhile_eq_drop tw)
    show ?thesis
      by (simp only: idx leader_scan.simps g sum.case True if_True list_insert_def
          insert_desc_def snd_conv tw dw)
  next
    case False
    with step.prems have "\<forall>i<Suc j. \<not> snd (top10 ! i) < score"
      by (auto simp: less_Suc_eq)
    from step.IH [OF this] show ?thesis
      by (simp only: idx leader_scan.simps g sum.case False if_False)
  qed
qed

lemma leader_scan_insert:
  "length top10 = 10 \<Longrightarrow>
   leader_scan region score [0..<10] top10 =
   Inr (take 10 (insert_desc (Some region, score) top10))"
  by (rule leader_scan_from) simp_all

lemma take_insert_desc:
  "n \<le> length xs \<Longrightarrow> take n (insert_desc x (take n xs)) = take n (insert_desc x xs)"
proof (induction xs arbitrary: n)
  case Nil
  then show ?case by simp
next
  case (Cons y ys)
  show ?case
  proof (cases n)
    case 0
    then show ?thesis by simp
  next
    case (Suc m)
    with Cons.prems have "m \<le> length ys" by simp
    from Cons.IH [OF this] show ?thesis
      by (simp add: Suc insert_desc_Cons take_Cons' min_def)
  qed
qed

lemma largest_co2_loop_fold:
  assumes "\<forall>(k, r)\<in>set regs. dict_has (co2_emissions r) 2016" and "10 \<le> length L"
  shows "largest_co2_loop regs (take 10 L) =
         Inr (take 10 (fold insert_desc (co2_candidates regs) L))"
  using assms
proof (induction regs arbitrary: L)
  case Nil
  then show ?case by (simp add: co2_candidates_def)
next
  case (Cons kr regs)
  obtain k r where kr: "kr = (k, r)" by (cases kr)
  from Cons.prems(1) kr obtain v where v: "dict_get (co2_emissions r) 2016 = Inr v"
    by (auto simp: dict_has_def dict_get_def)
  from Cons.prems(1) have rest: "\<forall>(k, r)\<in>set regs. dict_has (co2_emissions r) 2016" by simp
  show ?case
  proof (cases v)
    case None
    with v have c: "co2_candidates (kr # regs) = co2_candidates regs"
      by (simp add: co2_candidates_def kr)
    from Cons.IH [OF rest Cons.prems(2)] show ?thesis
      by (simp add: kr v None c [unfolded kr])
  next
    case (Some e)
    with v have c: "co2_candidates (kr # regs) = (Some k, e) # co2_candidates regs"
      by (simp add: co2_candidates_def kr)
    have len: "length (take 10 L) = 10" using Cons.prems(2) by simp
    have scan: "leader_scan k e [0..<10] (take 10 L) =
                Inr (take 10 (insert_desc (Some k, e) L))"
      by (simp only: leader_scan_insert [OF len] take_insert_desc [OF Cons.prems(2)])
    have "10 \<le> length (insert_desc (Some k, e) L)"
      using Cons.prems(2) by (simp add: length_insert_desc)
    from Cons.IH [OF rest this] show ?thesis
      by (simp only: kr largest_co2_loop.simps v Some sum.case option.case scan
          c [unfolded kr] fold_simps)
  qed
qed

lemma largest_co2_fold:
  assumes "\<forall>(k, r)\<in>set regs. dict_has (co2_emissions r) 2016"
  shows "largest_co2 regs =
         Inr (map fst (take 10 (fold insert_desc (co2_candidates regs) (replicate 10 (None, 0)))))"
proof -
  have "largest_co2_loop regs (take 10 (replicate 10 (None, 0))) =
        Inr (take 10 (fold insert_desc (co2_candidates regs) (replicate 10 (None, 0))))"
    by (rule largest_co2_loop_fold [OF assms]) simp
  then show ?thesis by (simp add: largest_co2_def)
qed

lemma greatest_help_loop_fold:
  assumes "10 \<le> length L"
  shows "greatest_help_loop regs (take 10 L) =
         Inr (take 10 (fold insert_desc (help_candidates regs) L))"
  using assms
proof (induction regs arbitrary: L)
  case Nil
  then show ?case by (simp add: help_candidates_def)
next
  case (Cons kr regs)
  obtain k r where kr: "kr = (k, r)" by (cases kr)
  show ?case
  proof (cases "region_score r")
    case None
    then have c: "help_candidates (kr # regs) = help_candidates regs"
      by (simp add: help_candidates_def kr)
    from Cons.IH [OF Cons.prems] show ?thesis
      by (simp add: kr None c [unfolded kr])
  next
    case (Some e)
    then have c: "help_candidates (kr # regs) = (Some k, e) # help_candidates regs"
      by (simp add: help_candidates_def kr)
    have len: "length (take 10 L) = 10" using Cons.prems by simp
    have scan: "leader_scan k e [0..<10] (take 10 L) =
                Inr (take 10 (insert_desc (Some k, e) L))"
      by (simp only: leader_scan_insert [OF len] take_insert_desc [OF Cons.prems])
    have "10 \<le> length (insert_desc (Some k, e) L)"
      using Cons.prems by (simp add: length_insert_desc)
    from Cons.IH [OF this] show ?thesis
      by (simp only: kr greatest_help_loop.simps Some sum.case option.case scan
          c [unfolded kr] fold_simps)
  qed
qed

lemma greatest_help_fold:
  "greatest_help regs =
   Inr (map fst (take 10 (fold insert_desc (help_candidates regs) (replicate 10 (None, 0)))))"
proof -
  have "greatest_help_loop regs (take 10 (replicate 10 (None, 0))) =
        Inr (take 10 (fold insert_desc (help_candidates regs) (replicate 10 (None, 0))))"
    by (rule greatest_help_loop_fold) simp
  then show ?thesis by (simp add: greatest_help_def)
qed

lemma insort_insert_desc:
  "insort_key (\<lambda>e. - snd e) y (insert_desc x S) =
   insert_desc x (insort_key (\<lambda>e. - snd e) y S)"
  by (induction S) (auto simp: insert_desc_Nil insert_desc_Cons)

lemma ranked_snoc: "ranked (xs @ [x]) = insert_desc x (ranked xs)"
  by (induction xs) (simp_all add: ranked_def insert_desc_Nil insort_insert_desc)

lemma fold_insert_desc_ranked: "fold insert_desc cs [] = ranked cs"
  by (induction cs rule: rev_induct) (simp_all add: ranked_snoc, simp add: ranked_def)

lemma insert_desc_before:
  "\<forall>e\<in>set B. snd e < snd x \<Longrightarrow> insert_desc x (A @ B) = insert_desc x A @ B"
proof (induction A)
  case Nil
  then show ?case by (cases B) (simp_all add: insert_desc_Nil insert_desc_Cons)
next
  case (Cons a A)
  then show ?case by (simp add: insert_desc_Cons)
qed

lemma insert_desc_after:
  "\<forall>e\<in>set A. \<not> snd e < snd x \<Longrightarrow> insert_desc x (A @ B) = A @ insert_desc x B"
  by (induction A) (simp_all add: insert_desc_Cons)

lemma set_ranked: "set (ranked cs) = set cs"
  by (simp add: ranked_def)

lemma length_ranked: "length (ranked cs) = length cs"
  by (simp add: ranked_def)

lemma fold_insert_desc_split:
  assumes "\<forall>e\<in>set sent. snd e = 0"
  shows "fold insert_desc cs sent =
         ranked (filter (\<lambda>e. 0 < snd e) cs) @ sent @ ranked (filter (\<lambda>e. \<not> 0 < snd e) cs)"
proof (induction cs rule: rev_induct)
  case Nil
  then show ?case by (simp add: ranked_def)
next
  case (snoc x cs)
  let ?P = "filter (\<lambda>e. 0 < snd e) cs" and ?N = "filter (\<lambda>e. \<not> 0 < snd e) cs"
  show ?case
  proof (cases "0 < snd x")
    case True
    have "\<forall>e\<in>set (sent @ ranked ?N). snd e < snd x"
      using assms True by (auto simp: set_ranked)
    from insert_desc_before [OF this, of "ranked ?P"] show ?thesis
      by (simp add: snoc.IH True ranked_snoc)
  next
    case False
    have "\<forall>e\<in>set (ranked ?P @ sent). \<not> snd e < snd x"
      using assms False by (auto simp: set_ranked)
    from insert_desc_after [OF this, of "ranked ?N"] show ?thesis
      by (simp add: snoc.IH False ranked_snoc)
  qed
qed

lemma ranked_split:
  "ranked cs = ranked (filter (\<lambda>e. 0 < snd e) cs) @ ranked (filter (\<lambda>e. \<not> 0 < snd e) cs)"
  using fold_insert_desc_split [of "[]" cs] by (simp add: fold_insert_desc_ranked)

lemma take_ranked_sentinels:
  assumes "\<forall>e\<in>set sent. snd e = 0" and "length sent = 10"
  shows "take 10 (fold insert_desc cs sent) =
         take 10 (ranked (filter (\<lambda>e. 0 < snd e) cs) @ sent)"
  by (simp add: fold_insert_desc_split [OF assms(1)] assms(2))

lemma largest_co2_ranked:
  assumes "\<forall>(k, r)\<in>set regs. dict_has (co2_emissions r) 2016"
  shows "largest_co2 regs =
         Inr (map fst (take 10 (ranked (filter (\<lambda>e. 0 < snd e) (co2_candidates regs)) @
                                replicate 10 (None, 0))))"
  by (simp only: largest_co2_fold [OF assms]) (simp add: take_ranked_sentinels)

lemma greatest_help_ranked:
  "greatest_help regs =
   Inr (map fst (take 10 (ranked (filter (\<lambda>e. 0 < snd e) (help_candidates regs)) @
                          replicate 10 (None, 0))))"
  by (simp only: greatest_help_fold) (simp add: take_ranked_sentinels)


lemma ranked_many:
  assumes "10 \<le> length (filter (\<lambda>e. 0 < snd e) cs)"
  shows "take 10 (ranked (filter (\<lambda>e. 0 < snd e) cs) @ sent) = take 10 (ranked cs)"
  using assms by (simp add: ranked_split [of cs] length_ranked)

lemma ranked_names_positive:
  assumes "Some k \<in> set (map fst (take 10 (ranked (filter (\<lambda>e. 0 < snd e) cs) @
                                             replicate 10 (None, 0::real))))"
  shows "\<exists>e. (Some k, e) \<in> set cs \<and> 0 < e"
proof -
  from assms obtain e where
    "(Some k, e) \<in> set (take 10 (ranked (filter (\<lambda>e. 0 < snd e) cs) @ replicate 10 (None, 0)))"
    by auto
  then have "(Some k, e) \<in> set (ranked (filter (\<lambda>e. 0 < snd e) cs) @ replicate 10 (None, 0))"
    by (rule in_set_takeD)
  then have "(Some k, e) \<in> set (filter (\<lambda>e. 0 < snd e) cs)"
    by (auto simp: set_ranked)
  then show ?thesis by auto
qed




text \<open>
  Claim C4, as the code has it. \<open>ranked\<close> orders by descending score and keeps the order of
  entries of equal score. When at least ten regions have a strictly positive value,
  \<^verbatim>\<open>largest_co2\<close> (every emissions series having the key 2016) and \<^verbatim>\<open>greatest_help\<close>
  return the names of the ten first of the ranked candidates; regions whose value is
  \<^verbatim>\<open>None\<close> are no candidates. A region that is returned always has a strictly positive
  value: a value of zero or below never enters the leaderboard.
\<close>

theorem leaderboards_rank_positive_scores:
  "sorted (map (\<lambda>e. - snd e) (ranked cs)) \<and>
   (\<forall>v. filter (\<lambda>e. snd e = v) (ranked cs) = filter (\<lambda>e. snd e = v) cs) \<and>
   ((\<forall>(k, r)\<in>set regs. dict_has (co2_emissions r) 2016) \<and>
    10 \<le> length (filter (\<lambda>e. 0 < snd e) (co2_candidates regs)) \<longrightarrow>
      largest_co2 regs = Inr (map fst (take 10 (ranked (co2_candidates regs))))) \<and>
   (10 \<le> length (filter (\<lambda>e. 0 < snd e) (help_candidates regs)) \<longrightarrow>
      greatest_help regs = Inr (map fst (take 10 (ranked (help_candidates regs))))) \<and>
   ((\<forall>(k, r)\<in>set regsa. dict_has (co2_emissions r) 2016) \<and>
    largest_co2 regsa = Inr names \<and> Some k \<in> set names \<longrightarrow>
      (\<exists>e. (Some k, e) \<in> set (co2_candidates regsa) \<and> 0 < e)) \<and>
   (greatest_help regsa = Inr names' \<and> Some k' \<in> set names' \<longrightarrow>
      (\<exists>e. (Some k', e) \<in> set (help_candidates regsa) \<and> 0 < e))"
proof (intro conjI impI allI)
  show "sorted (map (\<lambda>e. - snd e) (ranked cs))" by (simp add: ranked_def)
next
  fix v
  from sort_key_stable [of "\<lambda>e. - snd e" "- v" cs]
  show "filter (\<lambda>e. snd e = v) (ranked cs) = filter (\<lambda>e. snd e = v) cs"
    by (simp add: ranked_def)
next
  assume a: "(\<forall>(k, r)\<in>set regs. dict_has (co2_emissions r) 2016) \<and>
    10 \<le> length (filter (\<lambda>e. 0 < snd e) (co2_candidates regs))"
  show "largest_co2 regs = Inr (map fst (take 10 (ranked (co2_candidates regs))))"
    by (simp only: largest_co2_ranked [OF a [THEN conjunct1]] ranked_many [OF a [THEN conjunct2]])
next
  assume a: "10 \<le> length (filter (\<lambda>e. 0 < snd e) (help_candidates regs))"
  show "greatest_help regs = Inr (map fst (take 10 (ranked (help_candidates regs))))"
    by (simp only: greatest_help_ranked ranked_many [OF a])
next
  assume a: "(\<forall>(k, r)\<in>set regsa. dict_has (co2_emissions r) 2016) \<and>
    largest_co2 regsa = Inr names \<and> Some k \<in> set names"
  from a [THEN conjunct2, THEN conjunct1]
  have "names = map fst (take 10 (ranked (filter (\<lambda>e. 0 < snd e) (co2_candidates regsa)) @
                                replicate 10 (None, 0)))"
    by (simp only: largest_co2_ranked [OF a [THEN conjunct1]] sum.inject)
  with a show "\<exists>e. (Some k, e) \<in> set (co2_candidates regsa) \<and> 0 < e"
    by (intro ranked_names_positive) simp
next
  assume a: "greatest_help regsa = Inr names' \<and> Some k' \<in> set names'"
  from a [THEN conjunct1]
  have "names' = map fst (take 10 (ranked (filter (\<lambda>e. 0 < snd e) (help_candidates regsa)) @
                                replicate 10 (None, 0)))"
    by (simp only: greatest_help_ranked sum.inject)
  with a show "\<exists>e. (Some k', e) \<in> set (help_candidates regsa) \<and> 0 < e"
    by (intro ranked_names_positive) simp
qed

text \<open>
  C4 on twelve regions, eleven with a positive value: the ten highest in descending order,
  \<^verbatim>\<open>E\<close> before \<^verbatim>\<open>I\<close> and \<^verbatim>\<open>A\<close> before \<^verbatim>\<open>J\<close> at equal values.
\<close>

theorem leaderboards_rank_positive_scores_witness:
  "greatest_help
     (map (\<lambda>(n, s). (n, (Region n ''Asia'')\<lparr>region_score := Some s\<rparr>))
        [(''A'', 3), (''B'', 1), (''C'', 4), (''D'', 1), (''E'', 5), (''F'', 9),
         (''G'', 2), (''H'', 6), (''I'', 5), (''J'', 3), (''K'', 8), (''L'', 0)]) =
   Inr [Some ''F'', Some ''K'', Some ''H'', Some ''E'', Some ''I'', Some ''C'', Some ''A'',
        Some ''J'', Some ''G'', Some ''B''] \<and>
   largest_co2
     (map (\<lambda>(n, s). (n, (Region n ''Asia'')
                          \<lparr>co2_emissions := dict_set defualt_dict 2016 (Some s)\<rparr>))
        [(''A'', 3), (''B'', 1), (''C'', 4), (''D'', 1), (''E'', 5), (''F'', 9),
         (''G'', 2), (''H'', 6), (''I'', 5), (''J'', 3), (''K'', 8), (''L'', 0)]) =
   Inr [Some ''F'', Some ''K'', Some ''H'', Some ''E'', Some ''I'', Some ''C'', Some ''A'',
        Some ''J'', Some ''G'', Some ''B'']"
proof -
  let ?scores = "[(''A'', 3), (''B'', 1), (''C'', 4), (''D'', 1), (''E'', 5), (''F'', 9),
         (''G'', 2), (''H'', 6), (''I'', 5), (''J'', 3), (''K'', 8), (''L'', 0::real)]"
  let ?hregs = "map (\<lambda>(n, s). (n, (Region n ''Asia'')\<lparr>region_score := Some s\<rparr>)) ?scores"
  let ?co2 = "map (\<lambda>(n, s). (n, (Region n ''Asia'')
                          \<lparr>co2_emissions := dict_set defualt_dict 2016 (Some s)\<rparr>)) ?scores"
  let ?cands = "[(Some ''A'', 3), (Some ''B'', 1), (Some ''C'', 4), (Some ''D'', 1),
         (Some ''E'', 5), (Some ''F'', 9), (Some ''G'', 2), (Some ''H'', 6), (Some ''I'', 5),
         (Some ''J'', 3), (Some ''K'', 8), (Some ''L'', 0::real)]"
  have h: "help_candidates ?hregs = ?cands"
    by (simp add: help_candidates_def)
  have c: "co2_candidates ?co2 = ?cands"
    by (simp add: co2_candidates_def dict_get_set_same)
  have keys: "\<forall>(k, r)\<in>set ?co2. dict_has (co2_emissions r) 2016"
    by (simp add: dict_has_def map_of_dict_set)
  have many: "10 \<le> length (filter (\<lambda>e. 0 < snd e) ?cands)" by simp
  have r: "map fst (take 10 (ranked ?cands)) =
           [Some ''F'', Some ''K'', Some ''H'', Some ''E'', Some ''I'', Some ''C'', Some ''A'',
            Some ''J'', Some ''G'', Some ''B'']"
    by (simp add: ranked_def)
  note T = leaderboards_rank_positive_scores
  from T [where regs = ?hregs, THEN conjunct2, THEN conjunct2, THEN conjunct2, THEN conjunct1]
    many
  have one: "greatest_help ?hregs = Inr (map fst (take 10 (ranked ?cands)))"
    by (simp only: h)
  from T [where regs = ?co2, THEN conjunct2, THEN conjunct2, THEN conjunct1] keys many
  have two: "largest_co2 ?co2 = Inr (map fst (take 10 (ranked ?cands)))"
    by (simp only: c)
  from one two show ?thesis by (simp only: r)
qed

text \<open>
  C4 as stated includes scores of zero. Of ten regions with the scores 9 down to 0 the
  ten highest are all ten; the result has the nine positive ones and a placeholder in the
  place of the region with score 0.
\<close>

theorem leaderboards_zero_score_counterexample:
  "greatest_help
     (map (\<lambda>(n, s). (n, (Region n ''Asia'')\<lparr>region_score := Some s\<rparr>))
        [(''A'', 9), (''B'', 8), (''C'', 7), (''D'', 6), (''E'', 5), (''F'', 4),
         (''G'', 3), (''H'', 2), (''I'', 1), (''J'', 0)]) =
   Inr [Some ''A'', Some ''B'', Some ''C'', Some ''D'', Some ''E'', Some ''F'', Some ''G'',
        Some ''H'', Some ''I'', None]"
proof -
  have h: "help_candidates
     (map (\<lambda>(n, s). (n, (Region n ''Asia'')\<lparr>region_score := Some s\<rparr>))
        [(''A'', 9), (''B'', 8), (''C'', 7), (''D'', 6), (''E'', 5), (''F'', 4),
         (''G'', 3), (''H'', 2), (''I'', 1), (''J'', 0)]) =
     [(Some ''A'', 9), (Some ''B'', 8), (Some ''C'', 7), (Some ''D'', 6), (Some ''E'', 5),
      (Some ''F'', 4), (Some ''G'', 3), (Some ''H'', 2), (Some ''I'', 1), (Some ''J'', 0)]"
    by (simp add: help_candidates_def)
  show ?thesis
    by (simp only: greatest_help_fold h)
      (simp add: insert_desc_Cons insert_desc_Nil numeral_eq_Suc)
qed

end
